theory Spec2Isabelle
  imports Main "HOL-Library.Word"
begin

unbundle bit_operations_syntax

section \<open>The iobus driver: GPIO-emulated parallel bus and HDLC session\<close>

text \<open>
  The driver in \<^verbatim>\<open>iobus.c\<close> reaches a CPLD over a parallel bus that it emulates
  with GPIO pins, and offers the HDLC controller inside the CPLD as a character
  device. This theory embeds the bus primitives, the two bus cycles, the interrupt
  handler and the write and read file operations as functions on a record of the
  device state, and proves properties of them.

  The header \<^verbatim>\<open>iobus.h\<close> is not among the sources. What it declares enters the
  model in two ways. The pin layout is documented (the comment above
  \<^verbatim>\<open>gpio_init\<close>, the literal masks of \<^verbatim>\<open>set_data_in\<close> and \<^verbatim>\<open>set_data_out\<close>,
  and the 10-bit frame offset), so the four layout macros are definitions. The CPLD register
  map and flag values are documented nowhere, so they are the fields of a record
  \<open>iobus_h\<close> that every function using them takes as its first argument: what is
  proved holds for every register map.
\<close>

subsection \<open>Machine types\<close>

type_synonym u8 = "8 word"
type_synonym u32 = "32 word"

text \<open>\<^verbatim>\<open>IDLE\<close> and \<^verbatim>\<open>BUSY\<close>, the two values of \<^verbatim>\<open>send_stat\<close> and \<^verbatim>\<open>recv_stat\<close>.\<close>

datatype stat = IDLE | BUSY

datatype irqreturn = IRQ_NONE | IRQ_HANDLED

text \<open>The two wait queues of the device, \<^verbatim>\<open>send_wq\<close> and \<^verbatim>\<open>recv_wq\<close>.\<close>

datatype waitq = SEND_WQ | RECV_WQ

text \<open>
  The trace of the bus primitives: each of the nine inline functions of the source
  appends its own entry, with the argument it was called with or the byte it
  returned. The trace is not a variable of the driver; it records the order in which
  the driver touches the pins.
\<close>

datatype pin_op =
    SET_WR | CLR_WR | SET_RD | CLR_RD | SET_DATA_IN | SET_DATA_OUT
  | SET_ADDR u32 | WRITE_DATA u8 | READ_DATA u8

text \<open>
  The trace of the interrupt handler: the handler runs while a reader or a writer
  may be waiting on what it stores, so each of its stores to \<^verbatim>\<open>recv_bytes\<close>, to an
  element of \<^verbatim>\<open>recv_buf\<close>, to \<^verbatim>\<open>recv_stat\<close> and to \<^verbatim>\<open>send_stat\<close>, and each of
  its calls of \<^verbatim>\<open>wake_up_interruptible\<close>, appends an entry, in program order.
\<close>

datatype irq_op =
    STORE_RECV_BYTES nat | STORE_RECV_BUF nat u8 | STORE_RECV_STAT stat
  | STORE_SEND_STAT stat | WAKE_UP waitq

text \<open>
  C gives no meaning to a store behind the end of an array. An operation of the
  model that would make one stops there with this result, and nothing is said of
  the state the source is in.
\<close>

datatype fault = BUFFER_OVERRUN

text \<open>
  \<^verbatim>\<open>IOBUS_DEV\<close> with the registers behind its four mapped blocks.

  \<^item> \<open>gpio1_dr\<close>, \<open>gpio3_gdir\<close>, \<open>gpio3_dr\<close>, \<open>gpio4_dr\<close> are the pin registers the
    bus primitives modify; \<^verbatim>\<open>ioread32\<close> in a read-modify-write returns the
    register's current content.
  \<^item> \<open>gpio3_dr_in k\<close> is what \<^verbatim>\<open>ioread32\<close> returns from the data register of
    bank 3 at the \<open>k\<close>-th call of \<^verbatim>\<open>read_data\<close>: the data lines are inputs then
    and carry what the CPLD drives, which nothing in the driver determines.
    \<open>nread\<close> counts the calls so far.
  \<^item> \<open>send_buf\<close> and \<open>recv_buf\<close> are C arrays whose lengths are declared in the
    absent header; they are the parameters \<open>SEND_BUF_LEN\<close> and \<open>RECV_BUF_LEN\<close>
    below. The fields give the element at each index below the length. The driver
    never compares an index with the length; where it would store at an index
    that is not below it, the model's operation ends in \<open>BUFFER_OVERRUN\<close>.
  \<^item> \<open>recv_bytes\<close> only ever holds a value masked with \<^verbatim>\<open>0xFFFF\<close>; it is a \<open>nat\<close>.
  \<^item> \<open>send_wakeups\<close> and \<open>recv_wakeups\<close> count the calls of
    \<^verbatim>\<open>wake_up_interruptible\<close> on the two wait queues.
  \<^item> \<open>irq_log\<close> is the trace of the interrupt handler.

  The spin lock is not part of the state: the model runs one operation at a time.
\<close>

record iobus_dev =
  gpio1_dr :: u32
  gpio3_gdir :: u32
  gpio3_dr :: u32
  gpio4_dr :: u32
  gpio3_dr_in :: "nat \<Rightarrow> u32"
  nread :: nat
  pin_log :: "pin_op list"
  send_stat :: stat
  recv_stat :: stat
  send_buf :: "nat \<Rightarrow> u8"
  recv_buf :: "nat \<Rightarrow> u8"
  recv_bytes :: nat
  send_wakeups :: nat
  recv_wakeups :: nat
  irq_log :: "irq_op list"

subsection \<open>Pin layout\<close>

text \<open>
  The four layout macros of \<^verbatim>\<open>iobus.h\<close>, which is not among the sources. The
  comment above \<^verbatim>\<open>gpio_init\<close> gives the pins: gpio4-6 to gpio4-15 are the address
  lines A0 to A9, gpio3-16 to gpio3-23 the data lines D0 to D7.
\<close>

text \<open>
  Modelled from the spec: the macro \<^verbatim>\<open>CPLD_ADDR_SHIFT\<close> of the absent header. The
  frame is addressed by a 10-bit offset, whose bit 0 is on gpio4-6.
\<close>

definition CPLD_ADDR_SHIFT :: nat where
  "CPLD_ADDR_SHIFT = 6"

text \<open>
  Modelled from the spec: the macro \<^verbatim>\<open>GPIO4_ADDR_MSK\<close> of the absent header, the
  bits of the data register of bank 4 that are not the ten address lines.
\<close>

definition GPIO4_ADDR_MSK :: u32 where
  "GPIO4_ADDR_MSK = 0xFFFF003F"

text \<open>
  Modelled from the spec: the macro \<^verbatim>\<open>CPLD_DATA_SHIFT\<close> of the absent header. The
  bus is one byte wide, and bit 0 of the byte is on gpio3-16.
\<close>

definition CPLD_DATA_SHIFT :: nat where
  "CPLD_DATA_SHIFT = 16"

text \<open>
  Modelled from the spec: the macro \<^verbatim>\<open>GPIO3_DATA_MSK\<close> of the absent header, the
  bits of the data register of bank 3 that are not the eight data lines; it is the
  literal with which \<^verbatim>\<open>set_data_in\<close> masks the direction register.
\<close>

definition GPIO3_DATA_MSK :: u32 where
  "GPIO3_DATA_MSK = 0xFF00FFFF"

subsection \<open>Bus primitives\<close>

definition set_wr :: "iobus_dev \<Rightarrow> iobus_dev" where
  "set_wr s = s\<lparr>gpio1_dr := gpio1_dr s AND 0xFFFFFFFE, pin_log := pin_log s @ [SET_WR]\<rparr>"

definition clr_wr :: "iobus_dev \<Rightarrow> iobus_dev" where
  "clr_wr s = s\<lparr>gpio1_dr := gpio1_dr s OR 0x1, pin_log := pin_log s @ [CLR_WR]\<rparr>"

definition set_rd :: "iobus_dev \<Rightarrow> iobus_dev" where
  "set_rd s = s\<lparr>gpio1_dr := gpio1_dr s AND 0xFFFFFFFD, pin_log := pin_log s @ [SET_RD]\<rparr>"

definition clr_rd :: "iobus_dev \<Rightarrow> iobus_dev" where
  "clr_rd s = s\<lparr>gpio1_dr := gpio1_dr s OR 0x2, pin_log := pin_log s @ [CLR_RD]\<rparr>"

definition set_data_in :: "iobus_dev \<Rightarrow> iobus_dev" where
  "set_data_in s =
     s\<lparr>gpio3_gdir := gpio3_gdir s AND 0xFF00FFFF, pin_log := pin_log s @ [SET_DATA_IN]\<rparr>"

definition set_data_out :: "iobus_dev \<Rightarrow> iobus_dev" where
  "set_data_out s =
     s\<lparr>gpio3_gdir := gpio3_gdir s OR 0xFF0000, pin_log := pin_log s @ [SET_DATA_OUT]\<rparr>"

text \<open>\<^verbatim>\<open>addr\<close> is a C \<^verbatim>\<open>int\<close>; the shifted value is or-ed in without a mask.\<close>

definition set_addr :: "u32 \<Rightarrow> iobus_dev \<Rightarrow> iobus_dev" where
  "set_addr addr s =
     s\<lparr>gpio4_dr := (gpio4_dr s AND GPIO4_ADDR_MSK) OR push_bit CPLD_ADDR_SHIFT addr,
       pin_log := pin_log s @ [SET_ADDR addr]\<rparr>"

definition write_data :: "u8 \<Rightarrow> iobus_dev \<Rightarrow> iobus_dev" where
  "write_data data s =
     s\<lparr>gpio3_dr := (gpio3_dr s AND GPIO3_DATA_MSK) OR push_bit CPLD_DATA_SHIFT (ucast data),
       pin_log := pin_log s @ [WRITE_DATA data]\<rparr>"

text \<open>The byte that \<^verbatim>\<open>read_data\<close> extracts from a value of the data register.\<close>

definition data_byte :: "u32 \<Rightarrow> u8" where
  "data_byte v = ucast (drop_bit CPLD_DATA_SHIFT (v AND NOT GPIO3_DATA_MSK))"

definition read_data :: "iobus_dev \<Rightarrow> u8 \<times> iobus_dev" where
  "read_data s =
     (let v = data_byte (gpio3_dr_in s (nread s))
      in (v, s\<lparr>nread := Suc (nread s), pin_log := pin_log s @ [READ_DATA v]\<rparr>))"

subsection \<open>Bus cycles\<close>

definition write_cpld :: "u32 \<Rightarrow> u8 \<Rightarrow> iobus_dev \<Rightarrow> iobus_dev" where
  "write_cpld addr data s =
     set_data_in (clr_wr (set_wr (write_data data (set_addr addr (set_data_out s)))))"

definition read_cpld :: "u32 \<Rightarrow> iobus_dev \<Rightarrow> u8 \<times> iobus_dev" where
  "read_cpld addr s = read_data (clr_rd (set_rd (set_addr addr (set_data_in s))))"

subsection \<open>Register map\<close>

text \<open>
  The macros of \<^verbatim>\<open>iobus.h\<close> that the handler and the file operations use, as
  parameters: the bus addresses of the CPLD registers, the flag and command bytes,
  the interrupt number that \<^verbatim>\<open>gpio_to_irq(GPIO4_15)\<close> yields on the platform, and
  the declared lengths of the two buffers of \<^verbatim>\<open>IOBUS_DEV\<close>.
  A flag is only ever combined with an \<^verbatim>\<open>unsigned char\<close>, so a byte holds it.
\<close>

record iobus_h =
  ISR :: u32
  RSR :: u32
  RDN1 :: u32
  RDN2 :: u32
  RTER :: u32
  RXTXEN :: u32
  RPAR :: u32
  TNUMR_L :: u32
  TNUMR_H :: u32
  RMC :: u8
  TMC :: u8
  HREC_EN :: u8
  HSND_EN :: u8
  RXTXEN_R :: u8
  RXTXEN_T :: u8
  GPIO4_15_irq :: int
  SEND_BUF_LEN :: nat
  RECV_BUF_LEN :: nat

subsection \<open>Interrupt handler\<close>

text \<open>
  The drain loop of the handler,
  \<^verbatim>\<open>for (addr=0; addr<iobus_dev->recv_bytes; addr++) recv_buf[addr] = read_cpld(dev, addr)\<close>,
  entered at index \<open>addr\<close>. The bound is read from the state at every turn, as in
  the source. The source stores at \<open>addr\<close> whatever the length of \<^verbatim>\<open>recv_buf\<close>.
\<close>

function hdlc_recv_loop :: "iobus_h \<Rightarrow> nat \<Rightarrow> iobus_dev \<Rightarrow> fault + iobus_dev" where
  "hdlc_recv_loop h addr s =
     (if addr < recv_bytes s
      then (if RECV_BUF_LEN h \<le> addr then Inl BUFFER_OVERRUN
            else hdlc_recv_loop h (Suc addr)
                   ((snd (read_cpld (of_nat addr) s))
                      \<lparr>recv_buf := (recv_buf s)(addr := fst (read_cpld (of_nat addr) s)),
                       irq_log := irq_log s
                                    @ [STORE_RECV_BUF addr (fst (read_cpld (of_nat addr) s))]\<rparr>))
      else Inr s)"
  by pat_completeness auto
termination
  by (relation "measure (\<lambda>(h, addr, s). recv_bytes s - addr)")
     (auto simp: read_cpld_def read_data_def clr_rd_def set_rd_def set_addr_def
        set_data_in_def Let_def)

text \<open>
  Lines 216 to 228: the receive-complete branch. The two length registers are read
  in the order in which the source names them.
\<close>

definition hdlc_recv_complete :: "iobus_h \<Rightarrow> iobus_dev \<Rightarrow> fault + iobus_dev" where
  "hdlc_recv_complete h s =
     (let (lo, s1) = read_cpld (RDN1 h) s;
          (hi, s2) = read_cpld (RDN2 h) s1;
          n = unat (((ucast lo :: u32) OR push_bit 8 (ucast hi)) AND 0xFFFF);
          s3 = s2\<lparr>recv_bytes := n, irq_log := irq_log s2 @ [STORE_RECV_BYTES n]\<rparr>
      in case hdlc_recv_loop h 0 s3 of
           Inl f \<Rightarrow> Inl f
         | Inr s4 \<Rightarrow>
             (let (r, s5) = read_cpld (RTER h) s4;
                  s6 = write_cpld (RTER h) (r OR HREC_EN h) s5;
                  s7 = s6\<lparr>recv_stat := IDLE, irq_log := irq_log s6 @ [STORE_RECV_STAT IDLE]\<rparr>
              in Inr (s7\<lparr>recv_wakeups := Suc (recv_wakeups s7),
                         irq_log := irq_log s7 @ [WAKE_UP RECV_WQ]\<rparr>)))"

text \<open>
  Lines 232 to 241: the transmit-complete test, reached when the receive-complete
  flag is clear and also when it is set with a nonzero receive status.
\<close>

definition hdlc_send_complete :: "iobus_h \<Rightarrow> u8 \<Rightarrow> iobus_dev \<Rightarrow> irqreturn \<times> iobus_dev" where
  "hdlc_send_complete h isr s =
     (if isr AND TMC h \<noteq> 0
      then (let s1 = write_cpld (RXTXEN h) (RXTXEN_R h) s;
                (r, s2) = read_cpld (RTER h) s1;
                s3 = write_cpld (RTER h) (r OR HREC_EN h) s2;
                s4 = s3\<lparr>send_stat := IDLE, irq_log := irq_log s3 @ [STORE_SEND_STAT IDLE]\<rparr>
            in (IRQ_HANDLED, s4\<lparr>send_wakeups := Suc (send_wakeups s4),
                                  irq_log := irq_log s4 @ [WAKE_UP SEND_WQ]\<rparr>))
      else (IRQ_NONE, s))"

definition hdlc_interrupt_handler ::
  "iobus_h \<Rightarrow> int \<Rightarrow> iobus_dev \<Rightarrow> fault + irqreturn \<times> iobus_dev" where
  "hdlc_interrupt_handler h irq s =
     (if irq \<noteq> GPIO4_15_irq h then Inr (IRQ_NONE, s)
      else
        let s1 = s\<lparr>gpio1_dr := 0x100 OR gpio1_dr s\<rparr>;
            s2 = s1\<lparr>gpio1_dr := 0xfffffeff AND gpio1_dr s1\<rparr>;
            (isr, s3) = read_cpld (ISR h) s2
        in if isr AND RMC h \<noteq> 0
           then (let (rsr, s4) = read_cpld (RSR h) s3
                 in if rsr = 0
                    then (case hdlc_recv_complete h s4 of
                            Inl f \<Rightarrow> Inl f
                          | Inr s5 \<Rightarrow> Inr (IRQ_HANDLED, s5))
                    else Inr (hdlc_send_complete h isr s4))
           else Inr (hdlc_send_complete h isr s3))"

subsection \<open>File operations\<close>

datatype errno = EAGAIN | EFAULT

text \<open>
  What a file operation does: it returns a value, it returns a negative error
  number, or it goes to sleep on a wait queue. A sleeping call is woken by the
  handler and tests the state again; in the model that is a second evaluation of the
  operation on the state the handler left.
\<close>

datatype 'a outcome = Done 'a | Err errno | Sleep waitq

text \<open>
  The user's memory. For \<^verbatim>\<open>copy_from_user\<close> the source region is the list of bytes
  readable from the user's pointer on; for \<^verbatim>\<open>copy_to_user\<close> the destination is the
  number of bytes writable from the pointer on. Both return the number of bytes
  \<^emph>\<open>not\<close> copied, as the kernel's functions do, with what was copied. The part of
  the destination that \<^verbatim>\<open>copy_from_user\<close> could not fill is left as it was.
\<close>

definition copy_from_user :: "(nat \<Rightarrow> u8) \<Rightarrow> u8 list \<Rightarrow> nat \<Rightarrow> nat \<times> (nat \<Rightarrow> u8)" where
  "copy_from_user to ubuf n =
     (let m = min n (length ubuf)
      in (n - m, \<lambda>i. if i < m then ubuf ! i else to i))"

definition copy_to_user :: "nat \<Rightarrow> (nat \<Rightarrow> u8) \<Rightarrow> nat \<Rightarrow> nat \<times> u8 list" where
  "copy_to_user writable from n =
     (let m = min n writable in (n - m, map from [0..<m]))"

text \<open>
  The staging loop of \<^verbatim>\<open>iobus_write\<close>,
  \<^verbatim>\<open>for (addr=0; addr<count; addr++) write_cpld(dev, addr, send_buf[addr])\<close>, entered
  at index \<open>addr\<close>.
\<close>

function iobus_write_loop :: "nat \<Rightarrow> nat \<Rightarrow> iobus_dev \<Rightarrow> iobus_dev" where
  "iobus_write_loop addr count s =
     (if addr < count
      then iobus_write_loop (Suc addr) count (write_cpld (of_nat addr) (send_buf s addr) s)
      else s)"
  by pat_completeness auto
termination
  by (relation "measure (\<lambda>(addr, count, s). count - addr)") auto

text \<open>
  \<^verbatim>\<open>iobus_write\<close>: \<open>nonblock\<close> is \<^verbatim>\<open>filp->f_flags & O_NONBLOCK\<close>, \<open>ubuf\<close> the
  user's memory at \<^verbatim>\<open>buf\<close>, \<open>count\<close> the \<^verbatim>\<open>size_t\<close> of the 32-bit platform.
  \<^verbatim>\<open>copy_from_user\<close> is given \<open>count\<close> bytes to fill in \<^verbatim>\<open>send_buf\<close> whatever
  the length of the array: with a \<open>count\<close> above it the call overruns the array.
\<close>

definition iobus_write ::
  "iobus_h \<Rightarrow> bool \<Rightarrow> u8 list \<Rightarrow> u32 \<Rightarrow> iobus_dev \<Rightarrow> fault + u32 outcome \<times> iobus_dev" where
  "iobus_write h nonblock ubuf count s =
     (if send_stat s = BUSY
      then Inr (if nonblock then (Err EAGAIN, s) else (Sleep SEND_WQ, s))
      else if SEND_BUF_LEN h < unat count then Inl BUFFER_OVERRUN
      else
        let (left, sb) = copy_from_user (send_buf s) ubuf (unat count);
            s1 = s\<lparr>send_buf := sb\<rparr>
        in if left \<noteq> 0 then Inr (Err EFAULT, s1)
           else
             let s2 = iobus_write_loop 0 (unat count) s1;
                 s3 = write_cpld (RPAR h) (send_buf s2 0) s2;
                 s4 = write_cpld (TNUMR_L h) (ucast (count AND 0xFF)) s3;
                 s5 = write_cpld (TNUMR_H h) (ucast (drop_bit 8 count AND 0xFF)) s4;
                 s6 = write_cpld (RXTXEN h) (RXTXEN_T h) s5;
                 (r, s7) = read_cpld (RTER h) s6;
                 s8 = write_cpld (RTER h) (r OR HSND_EN h) s7
             in Inr (Done count, s8\<lparr>send_stat := BUSY\<rparr>))"

text \<open>
  \<^verbatim>\<open>iobus_read\<close>: \<open>writable\<close> is the user's memory at \<^verbatim>\<open>buf\<close>, \<open>count\<close> the
  capacity the caller states. The second component of the result is what
  \<^verbatim>\<open>copy_to_user\<close> delivered.
\<close>

definition iobus_read ::
  "bool \<Rightarrow> nat \<Rightarrow> u32 \<Rightarrow> iobus_dev \<Rightarrow> nat outcome \<times> u8 list \<times> iobus_dev" where
  "iobus_read nonblock writable count s =
     (if recv_stat s = BUSY
      then (if nonblock then (Err EAGAIN, [], s) else (Sleep RECV_WQ, [], s))
      else
        let (left, out) = copy_to_user writable (recv_buf s) (recv_bytes s)
        in if left \<noteq> 0 then (Err EFAULT, out, s)
           else (Done (recv_bytes s), out, s\<lparr>recv_stat := BUSY\<rparr>))"

subsection \<open>Vocabulary of the properties\<close>

text \<open>
  The pin operations of one write cycle and of one read cycle, as the source orders
  them. The properties below speak of the trace in these units.
\<close>

definition wr_cycle :: "u32 \<Rightarrow> u8 \<Rightarrow> pin_op list" where
  "wr_cycle addr data =
     [SET_DATA_OUT, SET_ADDR addr, WRITE_DATA data, SET_WR, CLR_WR, SET_DATA_IN]"

definition rd_cycle :: "u32 \<Rightarrow> u8 \<Rightarrow> pin_op list" where
  "rd_cycle addr v = [SET_DATA_IN, SET_ADDR addr, SET_RD, CLR_RD, READ_DATA v]"

text \<open>The byte that the \<open>k\<close>-th read cycle returns.\<close>

definition rd_byte :: "iobus_dev \<Rightarrow> nat \<Rightarrow> u8" where
  "rd_byte s k = data_byte (gpio3_dr_in s k)"


text \<open>
  Two values of a pin register agree outside the bits \<open>own\<close>. \<open>pin_frame\<close> says
  so of the four pin registers between two states, with the bits that may differ
  in the data register of bank 1, the direction register of bank 3, the data
  register of bank 3 and the data register of bank 4.
\<close>

definition same_outside :: "u32 \<Rightarrow> u32 \<Rightarrow> u32 \<Rightarrow> bool" where
  "same_outside own old new \<longleftrightarrow> new AND NOT own = old AND NOT own"

definition pin_frame :: "u32 \<Rightarrow> u32 \<Rightarrow> u32 \<Rightarrow> u32 \<Rightarrow> iobus_dev \<Rightarrow> iobus_dev \<Rightarrow> bool" where
  "pin_frame own1 own3dir own3 own4 s s' \<longleftrightarrow>
     same_outside own1 (gpio1_dr s) (gpio1_dr s') \<and>
     same_outside own3dir (gpio3_gdir s) (gpio3_gdir s') \<and>
     same_outside own3 (gpio3_dr s) (gpio3_dr s') \<and>
     same_outside own4 (gpio4_dr s) (gpio4_dr s')"

text \<open>
  The write cycles that stage the first \<open>n\<close> bytes of a frame, byte \<open>i\<close> with the
  address argument \<open>i\<close>.
\<close>

definition staged_frame :: "u8 list \<Rightarrow> nat \<Rightarrow> pin_op list" where
  "staged_frame ubuf n = concat (map (\<lambda>i. wr_cycle (of_nat i) (ubuf ! i)) [0..<n])"

text \<open>
  The read cycles that drain \<open>n\<close> bytes of a frame, byte \<open>i\<close> with the address
  argument \<open>i\<close>, where that read returns the byte \<open>rd (k + i)\<close>.
\<close>

definition drained_frame :: "(nat \<Rightarrow> u8) \<Rightarrow> nat \<Rightarrow> nat \<Rightarrow> pin_op list" where
  "drained_frame rd k n = concat (map (\<lambda>i. rd_cycle (of_nat i) (rd (k + i))) [0..<n])"

text \<open>
  What the CPLD sees of a trace. \<^verbatim>\<open>set_addr\<close> shifts its argument onto the ten
  address lines, which carry its low ten bits: \<open>addr_lines a\<close>. A write cycle reaches
  the CPLD when the write strobe is asserted, with the address and the data then on
  the lines; a read cycle when the data lines are sampled. \<open>bus_cycles a d t\<close> reads
  the trace \<open>t\<close> from a moment at which the lines carry the address \<open>a\<close> and the
  data \<open>d\<close>; \<open>bus_ops\<close> is for a trace that starts with a cycle, which drives both
  before it uses them.
\<close>

definition addr_lines :: "u32 \<Rightarrow> u32" where
  "addr_lines a = a AND 0x3FF"

datatype bus_op = BUS_WRITE u32 u8 | BUS_READ u32 u8

fun bus_cycles :: "u32 \<Rightarrow> u8 \<Rightarrow> pin_op list \<Rightarrow> bus_op list" where
  "bus_cycles a d [] = []"
| "bus_cycles a d (SET_ADDR x # t) = bus_cycles (addr_lines x) d t"
| "bus_cycles a d (WRITE_DATA y # t) = bus_cycles a y t"
| "bus_cycles a d (SET_WR # t) = BUS_WRITE a d # bus_cycles a d t"
| "bus_cycles a d (READ_DATA v # t) = BUS_READ a v # bus_cycles a d t"
| "bus_cycles a d (op # t) = bus_cycles a d t"

definition bus_ops :: "pin_op list \<Rightarrow> bus_op list" where
  "bus_ops t = bus_cycles 0 0 t"

text \<open>A write cycle to the bus address \<open>a\<close>.\<close>

fun writes_to :: "u32 \<Rightarrow> bus_op \<Rightarrow> bool" where
  "writes_to a (BUS_WRITE x d) = (x = a)"
| "writes_to a (BUS_READ x v) = False"

text \<open>The pin operations that an operation taking \<open>s\<close> to \<open>s'\<close> has appended.\<close>

definition emitted :: "iobus_dev \<Rightarrow> iobus_dev \<Rightarrow> pin_op list" where
  "emitted s s' = drop (length (pin_log s)) (pin_log s')"

subsection \<open>Sample inputs\<close>

text \<open>
  A register map, a device state and a sequence of data-register values for the
  examples that follow: \<open>pads_of vs\<close> presents the values \<open>vs\<close> in turn, then zero.
  The registers lie in the upper half of the ten-bit address space; each buffer
  has the length of the longest frame that the two length registers can state,
  65535 bytes.
\<close>

definition h0 :: iobus_h where
  "h0 = \<lparr>ISR = 0x210, RSR = 0x211, RDN1 = 0x212, RDN2 = 0x213, RTER = 0x214,
          RXTXEN = 0x215, RPAR = 0x216, TNUMR_L = 0x217, TNUMR_H = 0x218,
          RMC = 0x01, TMC = 0x02, HREC_EN = 0x01, HSND_EN = 0x02,
          RXTXEN_R = 0x00, RXTXEN_T = 0x01, GPIO4_15_irq = 111,
          SEND_BUF_LEN = 65535, RECV_BUF_LEN = 65535\<rparr>"

definition pads_of :: "u32 list \<Rightarrow> nat \<Rightarrow> u32" where
  "pads_of vs k = (if k < length vs then vs ! k else 0)"

definition dev0 :: iobus_dev where
  "dev0 = \<lparr>gpio1_dr = 0x3, gpio3_gdir = 0, gpio3_dr = 0, gpio4_dr = 0,
            gpio3_dr_in = pads_of [], nread = 0, pin_log = [],
            send_stat = IDLE, recv_stat = BUSY,
            send_buf = (\<lambda>i. 0), recv_buf = (\<lambda>i. 0), recv_bytes = 0,
            send_wakeups = 0, recv_wakeups = 0, irq_log = []\<rparr>"

text \<open>
  Three further sample states, for the register map \<open>h0\<close>. In \<open>dev_frame\<close> the CPLD
  answers the handler's reads with: status receive-complete, receive status 0,
  length 2, the bytes \<open>0x05\<close> and \<open>0xAA\<close>, arm register 0. In \<open>dev_rx_error\<close> a
  transmission is under way and the CPLD answers with: status receive-complete and
  transmit-complete, receive status 1, arm register 0. In \<open>dev_long\<close> the CPLD
  answers with: status receive-complete, receive status 0, length low byte 1 and
  high byte 4, that is 1025, and zero from then on.
\<close>

definition dev_frame :: iobus_dev where
  "dev_frame =
     dev0\<lparr>gpio3_dr_in := pads_of [0x010000, 0, 0x020000, 0, 0x050000, 0xAA0000, 0]\<rparr>"

definition dev_rx_error :: iobus_dev where
  "dev_rx_error = dev0\<lparr>gpio3_dr_in := pads_of [0x030000, 0x010000, 0], send_stat := BUSY\<rparr>"

definition dev_long :: iobus_dev where
  "dev_long = dev0\<lparr>gpio3_dr_in := pads_of [0x010000, 0, 0x010000, 0x040000]\<rparr>"

section \<open>Properties\<close>

subsection \<open>The bus cycles as single updates\<close>

lemmas pin_defs = set_wr_def clr_wr_def set_rd_def clr_rd_def set_data_in_def
  set_data_out_def set_addr_def write_data_def

lemma write_cpld_eq:
  "write_cpld addr data s =
     s\<lparr>gpio1_dr := (gpio1_dr s AND 0xFFFFFFFE) OR 0x1,
       gpio3_gdir := (gpio3_gdir s OR 0xFF0000) AND 0xFF00FFFF,
       gpio3_dr := (gpio3_dr s AND GPIO3_DATA_MSK) OR push_bit CPLD_DATA_SHIFT (ucast data),
       gpio4_dr := (gpio4_dr s AND GPIO4_ADDR_MSK) OR push_bit CPLD_ADDR_SHIFT addr,
       pin_log := pin_log s @ wr_cycle addr data\<rparr>"
  by (simp add: write_cpld_def pin_defs wr_cycle_def)

lemma read_cpld_eq:
  "read_cpld addr s =
     (rd_byte s (nread s),
      s\<lparr>gpio1_dr := (gpio1_dr s AND 0xFFFFFFFD) OR 0x2,
        gpio3_gdir := gpio3_gdir s AND 0xFF00FFFF,
        gpio4_dr := (gpio4_dr s AND GPIO4_ADDR_MSK) OR push_bit CPLD_ADDR_SHIFT addr,
        nread := Suc (nread s),
        pin_log := pin_log s @ rd_cycle addr (rd_byte s (nread s))\<rparr>)"
  by (simp add: read_cpld_def read_data_def pin_defs rd_cycle_def rd_byte_def Let_def)

lemma rd_byte_upd [simp]:
  "rd_byte (s\<lparr>gpio1_dr := a\<rparr>) = rd_byte s"
  "rd_byte (s\<lparr>gpio3_gdir := b\<rparr>) = rd_byte s"
  "rd_byte (s\<lparr>gpio3_dr := c\<rparr>) = rd_byte s"
  "rd_byte (s\<lparr>gpio4_dr := d\<rparr>) = rd_byte s"
  "rd_byte (s\<lparr>nread := e\<rparr>) = rd_byte s"
  "rd_byte (s\<lparr>pin_log := f\<rparr>) = rd_byte s"
  "rd_byte (s\<lparr>send_stat := g\<rparr>) = rd_byte s"
  "rd_byte (s\<lparr>recv_stat := g\<rparr>) = rd_byte s"
  "rd_byte (s\<lparr>send_buf := i\<rparr>) = rd_byte s"
  "rd_byte (s\<lparr>recv_buf := i\<rparr>) = rd_byte s"
  "rd_byte (s\<lparr>recv_bytes := j\<rparr>) = rd_byte s"
  "rd_byte (s\<lparr>send_wakeups := j\<rparr>) = rd_byte s"
  "rd_byte (s\<lparr>recv_wakeups := j\<rparr>) = rd_byte s"
  "rd_byte (s\<lparr>irq_log := l\<rparr>) = rd_byte s"
  by (simp_all add: rd_byte_def fun_eq_iff)


subsection \<open>The write cycle\<close>





subsection \<open>The read cycle\<close>

text \<open>The byte read is the value of the eight data lines, bits 16 to 23.\<close>

lemma data_byte_bit: "bit (data_byte v) n \<longleftrightarrow> n < 8 \<and> bit v (16 + n)"
proof -
  have e: "NOT (0xFF00FFFF :: u32) = push_bit 16 (mask 8)"
    by (simp add: mask_eq_exp_minus_1)
  show ?thesis
    unfolding data_byte_def CPLD_DATA_SHIFT_def GPIO3_DATA_MSK_def e
    by (auto simp: bit_simps dest: bit_imp_le_length)
qed

text \<open>
  C3, as stated, at address 5 on the sample state: the trace of the read cycle is
  not data lines to input, address, read strobe asserted, sample, read strobe
  deasserted.
\<close>

theorem read_cpld_sample_first_counterexample:
  "pin_log (snd (read_cpld 5 dev0)) \<noteq>
     pin_log dev0 @
       [SET_DATA_IN, SET_ADDR 5, SET_RD, READ_DATA (fst (read_cpld 5 dev0)), CLR_RD]"
  by (simp add: read_cpld_eq rd_cycle_def)

text \<open>
  C3, amended. A read cycle appends exactly five pin operations to the trace: data
  lines to input, address, read strobe asserted, read strobe deasserted, and then
  the sample of the data lines. The byte sampled after the strobe is deasserted is
  the byte returned, and the cycle ends with the read strobe deasserted.
\<close>

theorem read_cpld_cycle:
  "pin_log (snd (read_cpld addr s)) =
     pin_log s @ [SET_DATA_IN, SET_ADDR addr, SET_RD, CLR_RD, READ_DATA (fst (read_cpld addr s))]
   \<and> fst (read_cpld addr s) = data_byte (gpio3_dr_in s (nread s))
   \<and> bit (gpio1_dr (snd (read_cpld addr s))) 1"
  by (simp add: read_cpld_eq rd_cycle_def rd_byte_def bit_or_iff)


subsection \<open>Read-modify-write of the pin registers\<close>

lemma same_outside_refl [simp]: "same_outside own g g"
  by (simp add: same_outside_def)

lemma and_mask_frame: "m OR own = - 1 \<Longrightarrow> same_outside own g (g AND m)"
  unfolding same_outside_def
  by (rule bit_word_eqI) (auto simp: bit_simps bit_eq_iff)

lemma or_frame: "v AND NOT own = 0 \<Longrightarrow> same_outside own g (g OR v)"
  unfolding same_outside_def
  by (rule bit_word_eqI) (auto simp: bit_simps bit_eq_iff)

lemma field_frame:
  "m OR own = - 1 \<Longrightarrow> v AND NOT own = 0 \<Longrightarrow> same_outside own g ((g AND m) OR v)"
  unfolding same_outside_def
  by (rule bit_word_eqI) (auto simp: bit_simps bit_eq_iff)

lemma set_wr_frame: "pin_frame 0x1 0 0 0 s (set_wr s)"
  by (simp add: pin_frame_def set_wr_def and_mask_frame)

lemma clr_wr_frame: "pin_frame 0x1 0 0 0 s (clr_wr s)"
  by (simp add: pin_frame_def clr_wr_def or_frame)

lemma set_rd_frame: "pin_frame 0x2 0 0 0 s (set_rd s)"
  by (simp add: pin_frame_def set_rd_def and_mask_frame)

lemma clr_rd_frame: "pin_frame 0x2 0 0 0 s (clr_rd s)"
  by (simp add: pin_frame_def clr_rd_def or_frame)

lemma set_data_in_frame: "pin_frame 0 0xFF0000 0 0 s (set_data_in s)"
  by (simp add: pin_frame_def set_data_in_def and_mask_frame)

lemma set_data_out_frame: "pin_frame 0 0xFF0000 0 0 s (set_data_out s)"
  by (simp add: pin_frame_def set_data_out_def or_frame)

lemma data_field: "push_bit 16 (ucast (d :: u8) :: u32) AND NOT 0xFF0000 = 0"
proof -
  have e: "(0xFF0000 :: u32) = push_bit 16 (mask 8)"
    by (simp add: mask_eq_exp_minus_1)
  show ?thesis unfolding e
    by (rule bit_word_eqI) (auto simp: bit_simps dest: bit_imp_le_length)
qed

lemma write_data_frame: "pin_frame 0 0 0xFF0000 0 s (write_data d s)"
  unfolding pin_frame_def write_data_def GPIO3_DATA_MSK_def CPLD_DATA_SHIFT_def
  by (simp add: field_frame [OF _ data_field])

lemma addr_field:
  assumes "addr < 1024"
  shows "push_bit 6 (addr :: u32) AND NOT 0xFFC0 = 0"
proof -
  have e: "(0xFFC0 :: u32) = push_bit 6 (mask 10)"
    by (simp add: mask_eq_exp_minus_1)
  from assms have "addr < 2 ^ 10" by simp
  then have a: "addr AND mask 10 = addr" by (rule less_mask_eq)
  have "bit addr k \<Longrightarrow> k < 10" for k
    by (subst (asm) a [symmetric]) (simp add: bit_simps)
  then show ?thesis unfolding e
    by (intro bit_word_eqI) (auto simp: bit_simps)
qed

lemma set_addr_frame: "addr < 1024 \<Longrightarrow> pin_frame 0 0 0 0xFFC0 s (set_addr addr s)"
  unfolding pin_frame_def set_addr_def GPIO4_ADDR_MSK_def CPLD_ADDR_SHIFT_def
  by (simp add: field_frame [OF _ addr_field])

text \<open>
  C8, as stated, at address 1024 on the sample state: driving the address changes a
  bit of the data register of bank 4 that is not one of the ten address lines
  (bits 6 to 15).
\<close>

theorem set_addr_foreign_bits_counterexample:
  "\<not> pin_frame 0 0 0 0xFFC0 dev0 (set_addr 1024 dev0)"
  by (simp add: pin_frame_def same_outside_def set_addr_def dev0_def
      GPIO4_ADDR_MSK_def CPLD_ADDR_SHIFT_def)

text \<open>
  C8, amended. Each modification of a pin register by the bus engine computes the
  new value from the value read and leaves every bit outside the driver's own pins
  as it was, in that register and in the other three: the write strobe is bit 0 and
  the read strobe bit 1 of the data register of bank 1, the data lines are bits 16
  to 23 of the direction and data registers of bank 3, the address lines bits 6 to
  15 of the data register of bank 4. For the address drive this holds when the
  address fits the ten address lines, that is, is below 1024.
\<close>

theorem pin_ops_preserve_foreign_bits:
  "pin_frame 0x1 0 0 0 s (set_wr s) \<and>
   pin_frame 0x1 0 0 0 s (clr_wr s) \<and>
   pin_frame 0x2 0 0 0 s (set_rd s) \<and>
   pin_frame 0x2 0 0 0 s (clr_rd s) \<and>
   pin_frame 0 0xFF0000 0 0 s (set_data_in s) \<and>
   pin_frame 0 0xFF0000 0 0 s (set_data_out s) \<and>
   pin_frame 0 0 0xFF0000 0 s (write_data d s) \<and>
   (addr < 1024 \<longrightarrow> pin_frame 0 0 0 0xFFC0 s (set_addr addr s))"
  using set_wr_frame clr_wr_frame set_rd_frame clr_rd_frame set_data_in_frame
    set_data_out_frame write_data_frame set_addr_frame
  by blast

theorem pin_ops_preserve_foreign_bits_witness:
  "(5 :: u32) < 1024 \<and> pin_frame 0 0 0 0xFFC0 dev0 (set_addr 5 dev0)"
  using pin_ops_preserve_foreign_bits [of dev0 0 5] by simp


subsection \<open>The staging loop\<close>

declare iobus_write_loop.simps [simp del] hdlc_recv_loop.simps [simp del]

lemma write_loop_frame:
  "send_buf (iobus_write_loop a n s) = send_buf s"
  "send_stat (iobus_write_loop a n s) = send_stat s"
  "recv_stat (iobus_write_loop a n s) = recv_stat s"
  "recv_buf (iobus_write_loop a n s) = recv_buf s"
  "recv_bytes (iobus_write_loop a n s) = recv_bytes s"
  "send_wakeups (iobus_write_loop a n s) = send_wakeups s"
  "recv_wakeups (iobus_write_loop a n s) = recv_wakeups s"
  "nread (iobus_write_loop a n s) = nread s"
  "gpio3_dr_in (iobus_write_loop a n s) = gpio3_dr_in s"
  "irq_log (iobus_write_loop a n s) = irq_log s"
  by (induction a n s rule: iobus_write_loop.induct;
      subst iobus_write_loop.simps; simp add: write_cpld_eq)+

lemma write_loop_rd_byte: "rd_byte (iobus_write_loop a n s) = rd_byte s"
  by (simp add: rd_byte_def fun_eq_iff write_loop_frame)

lemma write_loop_log:
  "pin_log (iobus_write_loop a n s) =
     pin_log s @ concat (map (\<lambda>i. wr_cycle (of_nat i) (send_buf s i)) [a..<n])"
proof (induction a n s rule: iobus_write_loop.induct)
  case (1 addr count s)
  show ?case
  proof (cases "addr < count")
    case True
    then show ?thesis
      using 1 by (subst iobus_write_loop.simps) (simp add: write_cpld_eq upt_conv_Cons)
  next
    case False
    then show ?thesis by (subst iobus_write_loop.simps) simp
  qed
qed


subsection \<open>What the CPLD sees\<close>

text \<open>The address lines after \<^verbatim>\<open>set_addr\<close> carry the low ten bits of its argument.\<close>

lemma set_addr_lines:
  "drop_bit CPLD_ADDR_SHIFT (gpio4_dr (set_addr a s) AND NOT GPIO4_ADDR_MSK) = addr_lines a"
proof -
  have m: "(0xFFFF003F :: u32) = NOT (push_bit 6 (mask 10))" "(0x3FF :: u32) = mask 10"
    by (simp_all add: mask_eq_exp_minus_1)
  show ?thesis
    unfolding set_addr_def GPIO4_ADDR_MSK_def CPLD_ADDR_SHIFT_def addr_lines_def m
    by (simp, rule bit_word_eqI) (auto simp: bit_simps)
qed

lemma addr_lines_below:
  assumes "i < 1024"
  shows "addr_lines (of_nat i) = of_nat i"
proof -
  have m: "(0x3FF :: u32) = mask 10" by (simp add: mask_eq_exp_minus_1)
  from assms have "unat (of_nat i :: u32) = i"
    by (simp add: unat_of_nat)
  with assms have "(of_nat i :: u32) < 2 ^ 10"
    by (simp add: word_less_nat_alt)
  then show ?thesis
    unfolding addr_lines_def m by (rule less_mask_eq)
qed

lemma unat_addr_lines: "unat (addr_lines a) < 1024"
proof -
  have m: "(0x3FF :: u32) = mask 10" by (simp add: mask_eq_exp_minus_1)
  have "unat (take_bit 10 a) = take_bit 10 (unat a)"
    by (rule unsigned_take_bit_eq)
  moreover have "take_bit 10 (unat a) < 2 ^ 10"
    by (rule take_bit_nat_less_exp)
  ultimately have "unat (take_bit 10 a) < 1024" by simp
  then show ?thesis by (simp add: addr_lines_def m flip: take_bit_eq_mask)
qed

text \<open>
  Reading a trace cycle by cycle. A cycle drives the address lines, and a write
  cycle the data lines, before it uses them, so what the lines carried before does
  not matter.
\<close>

lemma parse_wr:
  "(\<And>a d. bus_cycles a d t = r) \<Longrightarrow>
   bus_cycles a d (wr_cycle x y @ t) = BUS_WRITE (addr_lines x) y # r"
  by (simp add: wr_cycle_def)

lemma parse_rd:
  "(\<And>a d. bus_cycles a d t = r) \<Longrightarrow>
   bus_cycles a d (rd_cycle x v @ t) = BUS_READ (addr_lines x) v # r"
  by (simp add: rd_cycle_def)

lemma parse_wr_last: "bus_cycles a d (wr_cycle x y) = [BUS_WRITE (addr_lines x) y]"
  using parse_wr [of "[]" "[]" a d x y] by simp

lemma staged_frame_Suc:
  "staged_frame ubuf (Suc n) = staged_frame ubuf n @ wr_cycle (of_nat n) (ubuf ! n)"
  by (simp add: staged_frame_def)

lemma drained_frame_Suc:
  "drained_frame rd k (Suc n) = drained_frame rd k n @ rd_cycle (of_nat n) (rd (k + n))"
  by (simp add: drained_frame_def)

lemma parse_staged:
  "(\<And>a d. bus_cycles a d t = r) \<Longrightarrow>
   bus_cycles a d (staged_frame ubuf n @ t) =
     map (\<lambda>i. BUS_WRITE (addr_lines (of_nat i)) (ubuf ! i)) [0..<n] @ r"
proof (induction n arbitrary: t r a d)
  case 0
  then show ?case by (simp add: staged_frame_def)
next
  case (Suc n)
  have "bus_cycles a d (staged_frame ubuf n @ wr_cycle (of_nat n) (ubuf ! n) @ t) =
          map (\<lambda>i. BUS_WRITE (addr_lines (of_nat i)) (ubuf ! i)) [0..<n]
            @ BUS_WRITE (addr_lines (of_nat n)) (ubuf ! n) # r"
    by (rule Suc.IH) (rule parse_wr, rule Suc.prems)
  then show ?case by (simp add: staged_frame_Suc)
qed

lemma parse_drained:
  "(\<And>a d. bus_cycles a d t = r) \<Longrightarrow>
   bus_cycles a d (drained_frame rd k n @ t) =
     map (\<lambda>i. BUS_READ (addr_lines (of_nat i)) (rd (k + i))) [0..<n] @ r"
proof (induction n arbitrary: t r a d)
  case 0
  then show ?case by (simp add: drained_frame_def)
next
  case (Suc n)
  have "bus_cycles a d (drained_frame rd k n @ rd_cycle (of_nat n) (rd (k + n)) @ t) =
          map (\<lambda>i. BUS_READ (addr_lines (of_nat i)) (rd (k + i))) [0..<n]
            @ BUS_READ (addr_lines (of_nat n)) (rd (k + n)) # r"
    by (rule Suc.IH) (rule parse_rd, rule Suc.prems)
  then show ?case by (simp add: drained_frame_Suc)
qed

lemma emitted_append: "pin_log s' = pin_log s @ t \<Longrightarrow> emitted s s' = t"
  by (simp add: emitted_def)

subsection \<open>Write\<close>

lemma copy_from_user_ok:
  "n \<le> length ubuf \<Longrightarrow>
   copy_from_user to ubuf n = (0, \<lambda>i. if i < n then ubuf ! i else to i)"
  by (simp add: copy_from_user_def min_def)

lemma staged_frame_cong:
  "concat (map (\<lambda>i. wr_cycle (of_nat i) (if i < n then ubuf ! i else f i)) [0..<n]) =
   staged_frame ubuf n"
  unfolding staged_frame_def
  by (rule arg_cong [where f = concat], rule map_cong) auto

text \<open>
  A write on an idle transmitter whose \<open>count\<close> bytes can all be read from the
  caller and fit the transmit buffer: the result, the trace, and the state it
  leaves.
\<close>

lemma iobus_write_ok:
  assumes idle: "send_stat s = IDLE" and rd: "unat count \<le> length ubuf"
    and fit: "unat count \<le> SEND_BUF_LEN h"
  shows "iobus_write h nb ubuf count s =
           Inr (Done count, snd (projr (iobus_write h nb ubuf count s)))"
    and "pin_log (snd (projr (iobus_write h nb ubuf count s))) =
       pin_log s @ staged_frame ubuf (unat count)
         @ wr_cycle (RPAR h) (if 0 < unat count then ubuf ! 0 else send_buf s 0)
         @ wr_cycle (TNUMR_L h) (ucast (count AND 0xFF))
         @ wr_cycle (TNUMR_H h) (ucast (drop_bit 8 count AND 0xFF))
         @ wr_cycle (RXTXEN h) (RXTXEN_T h)
         @ rd_cycle (RTER h) (rd_byte s (nread s))
         @ wr_cycle (RTER h) (rd_byte s (nread s) OR HSND_EN h)"
    and "send_buf (snd (projr (iobus_write h nb ubuf count s))) =
           (\<lambda>i. if i < unat count then ubuf ! i else send_buf s i)"
    and "send_stat (snd (projr (iobus_write h nb ubuf count s))) = BUSY"
    and "recv_stat (snd (projr (iobus_write h nb ubuf count s))) = recv_stat s"
  using idle fit
  by (simp_all add: iobus_write_def copy_from_user_ok [OF rd] Let_def read_cpld_eq
      write_cpld_eq write_loop_frame write_loop_log write_loop_rd_byte staged_frame_cong)

lemma iobus_write_busy:
  "send_stat s = BUSY \<Longrightarrow>
   iobus_write h nb ubuf count s = Inr (if nb then Err EAGAIN else Sleep SEND_WQ, s)"
  by (simp add: iobus_write_def)

lemma iobus_write_overrun:
  "send_stat s = IDLE \<Longrightarrow> SEND_BUF_LEN h < unat count \<Longrightarrow>
   iobus_write h nb ubuf count s = Inl BUFFER_OVERRUN"
  by (simp add: iobus_write_def)

text \<open>What the CPLD sees of the trace of a write.\<close>

lemma write_bus_ops:
  "bus_ops (staged_frame ubuf n @ wr_cycle a1 d1 @ wr_cycle a2 d2 @ wr_cycle a3 d3
            @ wr_cycle a4 d4 @ rd_cycle a5 v @ wr_cycle a5 d5) =
     map (\<lambda>i. BUS_WRITE (addr_lines (of_nat i)) (ubuf ! i)) [0..<n]
       @ [BUS_WRITE (addr_lines a1) d1, BUS_WRITE (addr_lines a2) d2,
          BUS_WRITE (addr_lines a3) d3, BUS_WRITE (addr_lines a4) d4,
          BUS_READ (addr_lines a5) v, BUS_WRITE (addr_lines a5) d5]"
  unfolding bus_ops_def
  by (rule parse_staged parse_wr parse_rd parse_wr_last)+

lemma iobus_write_bus_ops:
  assumes idle: "send_stat s = IDLE" and rd: "unat count \<le> length ubuf"
    and fit: "unat count \<le> SEND_BUF_LEN h"
  shows "bus_ops (emitted s (snd (projr (iobus_write h nb ubuf count s)))) =
     map (\<lambda>i. BUS_WRITE (addr_lines (of_nat i)) (ubuf ! i)) [0..<unat count]
       @ [BUS_WRITE (addr_lines (RPAR h)) (if 0 < unat count then ubuf ! 0 else send_buf s 0),
          BUS_WRITE (addr_lines (TNUMR_L h)) (ucast (count AND 0xFF)),
          BUS_WRITE (addr_lines (TNUMR_H h)) (ucast (drop_bit 8 count AND 0xFF)),
          BUS_WRITE (addr_lines (RXTXEN h)) (RXTXEN_T h),
          BUS_READ (addr_lines (RTER h)) (rd_byte s (nread s)),
          BUS_WRITE (addr_lines (RTER h)) (rd_byte s (nread s) OR HSND_EN h)]"
  unfolding emitted_append [OF iobus_write_ok(2) [OF idle rd fit]]
  by (rule write_bus_ops)

lemma of_nat_neq_above:
  assumes "i < unat (w :: u32)"
  shows "of_nat i \<noteq> w"
proof
  assume "of_nat i = w"
  then have "unat w = unat (of_nat i :: u32)" by simp
  also have "\<dots> = i mod 2 ^ 32" by (simp add: unat_of_nat)
  also have "\<dots> \<le> i" by simp
  finally show False using assms by simp
qed

text \<open>
  C1, as stated, on the sample register map with a frame of 533 bytes \<open>0x02\<close>. The
  arm register of the map has the bus address 532 and its transmit-arm bit is
  \<open>0x02\<close>, so the write cycle that stages the frame byte at offset 532 is a write
  of the transmit-arm bit to the arm register: it comes before the reply address
  and the two length bytes are written.
\<close>

theorem iobus_write_arm_aliased_counterexample:
  "iobus_write h0 False (replicate 533 0x02) 533 dev0 =
     Inr (Done 533, snd (projr (iobus_write h0 False (replicate 533 0x02) 533 dev0)))
   \<and> pin_log (snd (projr (iobus_write h0 False (replicate 533 0x02) 533 dev0))) =
       staged_frame (replicate 533 0x02) 532
         @ wr_cycle (RTER h0) (HSND_EN h0)
         @ wr_cycle (RPAR h0) 0x02 @ wr_cycle (TNUMR_L h0) 0x15 @ wr_cycle (TNUMR_H h0) 0x02
         @ wr_cycle (RXTXEN h0) (RXTXEN_T h0)
         @ rd_cycle (RTER h0) 0 @ wr_cycle (RTER h0) (HSND_EN h0)
   \<and> bus_ops (pin_log (snd (projr (iobus_write h0 False (replicate 533 0x02) 533 dev0)))) ! 532
       = BUS_WRITE (addr_lines (RTER h0)) (HSND_EN h0)
   \<and> bus_ops (pin_log (snd (projr (iobus_write h0 False (replicate 533 0x02) 533 dev0)))) ! 533
       = BUS_WRITE (addr_lines (RPAR h0)) 0x02"
proof -
  let ?u = "replicate 533 (0x02 :: u8)"
  let ?s' = "snd (projr (iobus_write h0 False ?u 533 dev0))"
  have idle: "send_stat dev0 = IDLE" by (simp add: dev0_def)
  have rd: "unat (533 :: u32) \<le> length ?u" by simp
  have fit: "unat (533 :: u32) \<le> SEND_BUF_LEN h0" by (simp add: h0_def)
  note ok = iobus_write_ok [OF idle rd fit, of False]
  have n: "unat (533 :: u32) = Suc 532" by simp
  have log: "pin_log ?s' =
       staged_frame ?u 532
         @ wr_cycle (RTER h0) (HSND_EN h0)
         @ wr_cycle (RPAR h0) 0x02 @ wr_cycle (TNUMR_L h0) 0x15 @ wr_cycle (TNUMR_H h0) 0x02
         @ wr_cycle (RXTXEN h0) (RXTXEN_T h0)
         @ rd_cycle (RTER h0) 0 @ wr_cycle (RTER h0) (HSND_EN h0)"
    unfolding ok(2) n staged_frame_Suc
    by (simp add: h0_def dev0_def rd_byte_def pads_of_def data_byte_def)
  have e: "emitted dev0 ?s' = pin_log ?s'"
    by (simp add: emitted_def dev0_def)
  note ops = iobus_write_bus_ops [OF idle rd fit, of False, unfolded e]
  have "bus_ops (pin_log ?s') ! 532 = BUS_WRITE (addr_lines (RTER h0)) (HSND_EN h0)"
    unfolding ops by (simp add: nth_append h0_def)
  moreover have "bus_ops (pin_log ?s') ! 533 = BUS_WRITE (addr_lines (RPAR h0)) 0x02"
    unfolding ops by (simp add: nth_append)
  ultimately show ?thesis using ok(1) log by blast
qed

text \<open>
  C1, amended. A write call with a buffer of \<open>count\<close> bytes whose byte 0 is \<open>X\<close>,
  where the count does not exceed the length of the transmit buffer, the frame ends
  below the bus address of the arm register, and the reply-address, length and
  direction registers do not share that bus address. On an idle transmitter the
  bus cycles the call performs are, in this order, the \<open>count\<close> frame bytes to the
  bus addresses 0 to \<open>count - 1\<close>, \<open>X\<close> to the reply-address register, the low and
  the high byte of the length, the direction, a read of the arm register and, last
  of all, the write that sets the transmit-arm bit in it; no write cycle before
  that last one is addressed to the arm register. On a busy transmitter the call
  performs no bus cycle at all.
\<close>

theorem iobus_write_stages_before_arm:
  fixes s h nb ubuf count X
  defines "s' \<equiv> snd (projr (iobus_write h nb ubuf count s))"
  defines "r \<equiv> rd_byte s (nread s)"
  assumes "unat count \<le> length ubuf" and "0 < unat count" and "ubuf ! 0 = X"
    and "unat count \<le> SEND_BUF_LEN h"
    and "unat count \<le> unat (addr_lines (RTER h))"
    and "addr_lines (RPAR h) \<noteq> addr_lines (RTER h)"
    and "addr_lines (TNUMR_L h) \<noteq> addr_lines (RTER h)"
    and "addr_lines (TNUMR_H h) \<noteq> addr_lines (RTER h)"
    and "addr_lines (RXTXEN h) \<noteq> addr_lines (RTER h)"
  shows "(send_stat s = IDLE \<longrightarrow>
            iobus_write h nb ubuf count s = Inr (Done count, s') \<and>
            pin_log s' =
              pin_log s @ staged_frame ubuf (unat count)
                @ wr_cycle (RPAR h) X
                @ wr_cycle (TNUMR_L h) (ucast (count AND 0xFF))
                @ wr_cycle (TNUMR_H h) (ucast (drop_bit 8 count AND 0xFF))
                @ wr_cycle (RXTXEN h) (RXTXEN_T h)
                @ rd_cycle (RTER h) r
                @ wr_cycle (RTER h) (r OR HSND_EN h) \<and>
            bus_ops (emitted s s') =
              map (\<lambda>i. BUS_WRITE (of_nat i) (ubuf ! i)) [0..<unat count]
                @ [BUS_WRITE (addr_lines (RPAR h)) X,
                   BUS_WRITE (addr_lines (TNUMR_L h)) (ucast (count AND 0xFF)),
                   BUS_WRITE (addr_lines (TNUMR_H h)) (ucast (drop_bit 8 count AND 0xFF)),
                   BUS_WRITE (addr_lines (RXTXEN h)) (RXTXEN_T h),
                   BUS_READ (addr_lines (RTER h)) r,
                   BUS_WRITE (addr_lines (RTER h)) (r OR HSND_EN h)] \<and>
            (\<forall>op \<in> set (butlast (bus_ops (emitted s s'))).
               \<not> writes_to (addr_lines (RTER h)) op) \<and>
            last (bus_ops (emitted s s')) = BUS_WRITE (addr_lines (RTER h)) (r OR HSND_EN h))
       \<and> (send_stat s = BUSY \<longrightarrow>
            iobus_write h nb ubuf count s = Inr (if nb then Err EAGAIN else Sleep SEND_WQ, s))"
proof (intro conjI impI)
  assume busy: "send_stat s = BUSY"
  then show "iobus_write h nb ubuf count s = Inr (if nb then Err EAGAIN else Sleep SEND_WQ, s)"
    by (rule iobus_write_busy)
next
  assume idle: "send_stat s = IDLE"
  note ok = iobus_write_ok [OF idle assms(3) assms(6), of nb, folded s'_def r_def]
  note ops0 = iobus_write_bus_ops [OF idle assms(3) assms(6), of nb, folded s'_def r_def]
  have below: "i < 1024" if "i < unat count" for i
    using that assms(7) unat_addr_lines [of "RTER h"] by simp
  have m: "map (\<lambda>i. BUS_WRITE (addr_lines (of_nat i)) (ubuf ! i)) [0..<unat count] =
           map (\<lambda>i. BUS_WRITE (of_nat i) (ubuf ! i)) [0..<unat count]"
    by (rule map_cong) (simp_all add: addr_lines_below below)
  show res: "iobus_write h nb ubuf count s = Inr (Done count, s')"
    by (rule ok(1))
  show "pin_log s' =
          pin_log s @ staged_frame ubuf (unat count)
            @ wr_cycle (RPAR h) X
            @ wr_cycle (TNUMR_L h) (ucast (count AND 0xFF))
            @ wr_cycle (TNUMR_H h) (ucast (drop_bit 8 count AND 0xFF))
            @ wr_cycle (RXTXEN h) (RXTXEN_T h)
            @ rd_cycle (RTER h) r
            @ wr_cycle (RTER h) (r OR HSND_EN h)"
    using ok(2) assms(4,5) by simp
  show ops: "bus_ops (emitted s s') =
          map (\<lambda>i. BUS_WRITE (of_nat i) (ubuf ! i)) [0..<unat count]
            @ [BUS_WRITE (addr_lines (RPAR h)) X,
               BUS_WRITE (addr_lines (TNUMR_L h)) (ucast (count AND 0xFF)),
               BUS_WRITE (addr_lines (TNUMR_H h)) (ucast (drop_bit 8 count AND 0xFF)),
               BUS_WRITE (addr_lines (RXTXEN h)) (RXTXEN_T h),
               BUS_READ (addr_lines (RTER h)) r,
               BUS_WRITE (addr_lines (RTER h)) (r OR HSND_EN h)]"
    using ops0 assms(4,5) unfolding m by simp
  have frame: "\<not> writes_to (addr_lines (RTER h)) (BUS_WRITE (of_nat i) (ubuf ! i))"
    if "i < unat count" for i
    using of_nat_neq_above [of i "addr_lines (RTER h)"] that assms(7) by simp
  show "\<forall>op \<in> set (butlast (bus_ops (emitted s s'))). \<not> writes_to (addr_lines (RTER h)) op"
    unfolding ops using frame assms(8-11) by (auto simp: butlast_append)
  show "last (bus_ops (emitted s s')) = BUS_WRITE (addr_lines (RTER h)) (r OR HSND_EN h)"
    unfolding ops by simp
qed

theorem iobus_write_stages_before_arm_witness:
  "iobus_write h0 False [0x05, 0x01, 0x02] 3 dev0 =
     Inr (Done 3, snd (projr (iobus_write h0 False [0x05, 0x01, 0x02] 3 dev0)))
   \<and> bus_ops (emitted dev0 (snd (projr (iobus_write h0 False [0x05, 0x01, 0x02] 3 dev0)))) =
       [BUS_WRITE 0 0x05, BUS_WRITE 1 0x01, BUS_WRITE 2 0x02,
        BUS_WRITE 0x216 0x05, BUS_WRITE 0x217 3, BUS_WRITE 0x218 0,
        BUS_WRITE 0x215 0x01, BUS_READ 0x214 0, BUS_WRITE 0x214 0x02]
   \<and> iobus_write h0 True [0x05, 0x01, 0x02] 3 (dev0\<lparr>send_stat := BUSY\<rparr>) =
       Inr (Err EAGAIN, dev0\<lparr>send_stat := BUSY\<rparr>)"
proof -
  have a: "unat (3 :: u32) \<le> length [0x05, 0x01, 0x02 :: u8]" "0 < unat (3 :: u32)"
    "[0x05, 0x01, 0x02 :: u8] ! 0 = 0x05" "unat (3 :: u32) \<le> SEND_BUF_LEN h0"
    "unat (3 :: u32) \<le> unat (addr_lines (RTER h0))"
    "addr_lines (RPAR h0) \<noteq> addr_lines (RTER h0)"
    "addr_lines (TNUMR_L h0) \<noteq> addr_lines (RTER h0)"
    "addr_lines (TNUMR_H h0) \<noteq> addr_lines (RTER h0)"
    "addr_lines (RXTXEN h0) \<noteq> addr_lines (RTER h0)"
    by (simp_all add: h0_def addr_lines_def)
  have up: "[0..<3] = [0, 1, 2]"
    by (simp add: upt_rec [of 0] upt_rec [of "Suc 0"] upt_rec [of 2] numeral_3_eq_3
        numeral_2_eq_2)
  from iobus_write_stages_before_arm [OF a, of dev0 False]
    iobus_write_stages_before_arm [OF a, of "dev0\<lparr>send_stat := BUSY\<rparr>" True]
  show ?thesis
    by (simp add: dev0_def h0_def rd_byte_def pads_of_def data_byte_def addr_lines_def up)
qed

lemma lo_byte: "unat (ucast (count AND 0xFF :: u32) :: u8) = unat count mod 256"
proof -
  have m: "(0xFF :: u32) = mask 8" by (simp add: mask_eq_exp_minus_1)
  show ?thesis
    by (simp add: m unsigned_ucast_eq unsigned_and_eq take_bit_eq_mod unat_mod_distrib
        flip: take_bit_eq_mask)
qed

lemma hi_byte:
  "unat (ucast (drop_bit 8 count AND 0xFF :: u32) :: u8) = unat count div 256 mod 256"
proof -
  have m: "(0xFF :: u32) = mask 8" by (simp add: mask_eq_exp_minus_1)
  show ?thesis
    by (simp add: m unsigned_ucast_eq unsigned_and_eq take_bit_eq_mod unat_drop_bit_eq
        drop_bit_eq_div unat_mod_distrib unat_div_distrib flip: take_bit_eq_mask)
qed

lemma lo_hi_bytes:
  "unat (ucast (count AND 0xFF :: u32) :: u8)
     + 256 * unat (ucast (drop_bit 8 count AND 0xFF :: u32) :: u8) = unat count mod 65536"
proof -
  have "n mod 256 + 256 * (n div 256 mod 256) = n mod 65536" for n :: nat
    using mod_mult2_eq [of n 256 256] by simp
  then show ?thesis unfolding lo_byte [of count] hi_byte [of count] .
qed

text \<open>
  C10, as stated, at a count of 65537 on the sample register map, whose transmit
  buffer has 65535 elements: the call does not copy 65537 bytes into the buffer, it
  overruns it.
\<close>

theorem iobus_write_overrun_counterexample:
  "iobus_write h0 False (replicate 65537 0x05) 65537 dev0 = Inl BUFFER_OVERRUN"
  by (rule iobus_write_overrun) (simp_all add: dev0_def h0_def)

text \<open>
  C10, amended. A write on an idle transmitter whose count does not exceed the
  length of the transmit buffer is accepted whatever the count is otherwise: no
  frame size is a hypothesis. All \<open>count\<close> bytes are copied into the transmit
  buffer; byte \<open>i\<close> is written in a write cycle that puts the low ten bits of \<open>i\<close>
  on the address lines, which is \<open>i\<close> itself for \<open>i\<close> below 1024; the
  length staged is the low byte \<open>count mod 256\<close> and the high byte
  \<open>(count div 256) mod 256\<close>, together \<open>count mod 65536\<close>. Of a count above the
  length of the buffer nothing is said.
\<close>

theorem iobus_write_count_unchecked:
  fixes s h nb ubuf count
  defines "s' \<equiv> snd (projr (iobus_write h nb ubuf count s))"
  assumes "send_stat s = IDLE" and "unat count \<le> length ubuf"
    and "unat count \<le> SEND_BUF_LEN h"
  shows "iobus_write h nb ubuf count s = Inr (Done count, s')
     \<and> (\<forall>i < unat count. send_buf s' i = ubuf ! i)
     \<and> pin_log s' =
         pin_log s @ staged_frame ubuf (unat count)
           @ wr_cycle (RPAR h) (send_buf s' 0)
           @ wr_cycle (TNUMR_L h) (ucast (count AND 0xFF))
           @ wr_cycle (TNUMR_H h) (ucast (drop_bit 8 count AND 0xFF))
           @ wr_cycle (RXTXEN h) (RXTXEN_T h)
           @ rd_cycle (RTER h) (rd_byte s (nread s))
           @ wr_cycle (RTER h) (rd_byte s (nread s) OR HSND_EN h)
     \<and> bus_ops (emitted s s') =
         map (\<lambda>i. BUS_WRITE (addr_lines (of_nat i)) (ubuf ! i)) [0..<unat count]
           @ [BUS_WRITE (addr_lines (RPAR h)) (send_buf s' 0),
              BUS_WRITE (addr_lines (TNUMR_L h)) (ucast (count AND 0xFF)),
              BUS_WRITE (addr_lines (TNUMR_H h)) (ucast (drop_bit 8 count AND 0xFF)),
              BUS_WRITE (addr_lines (RXTXEN h)) (RXTXEN_T h),
              BUS_READ (addr_lines (RTER h)) (rd_byte s (nread s)),
              BUS_WRITE (addr_lines (RTER h)) (rd_byte s (nread s) OR HSND_EN h)]
     \<and> unat (ucast (count AND 0xFF) :: u8) = unat count mod 256
     \<and> unat (ucast (drop_bit 8 count AND 0xFF) :: u8) = unat count div 256 mod 256
     \<and> unat (ucast (count AND 0xFF) :: u8)
          + 256 * unat (ucast (drop_bit 8 count AND 0xFF) :: u8) = unat count mod 65536"
  using iobus_write_ok(1,2,3) [OF assms(2-4), of nb, folded s'_def]
    iobus_write_bus_ops [OF assms(2-4), of nb, folded s'_def]
    lo_byte [of count] hi_byte [of count] lo_hi_bytes [of count]
  by simp

theorem iobus_write_count_unchecked_witness:
  "iobus_write h0 False [0x05, 0x01, 0x02] 3 dev0 =
     Inr (Done 3, snd (projr (iobus_write h0 False [0x05, 0x01, 0x02] 3 dev0)))
   \<and> send_buf (snd (projr (iobus_write h0 False [0x05, 0x01, 0x02] 3 dev0))) 2 = 0x02
   \<and> iobus_write (h0\<lparr>SEND_BUF_LEN := 131072\<rparr>) False (replicate 65537 0x05) 65537 dev0 =
       Inr (Done 65537,
            snd (projr (iobus_write (h0\<lparr>SEND_BUF_LEN := 131072\<rparr>) False
                          (replicate 65537 0x05) 65537 dev0)))
   \<and> unat (ucast ((65537 :: u32) AND 0xFF) :: u8)
        + 256 * unat (ucast (drop_bit 8 (65537 :: u32) AND 0xFF) :: u8) = 1"
proof -
  have idle: "send_stat dev0 = IDLE" by (simp add: dev0_def)
  have a: "unat (3 :: u32) \<le> length [0x05, 0x01, 0x02 :: u8]"
    "unat (3 :: u32) \<le> SEND_BUF_LEN h0"
    by (simp_all add: h0_def)
  have b: "unat (65537 :: u32) \<le> length (replicate 65537 (0x05 :: u8))"
    "unat (65537 :: u32) \<le> SEND_BUF_LEN (h0\<lparr>SEND_BUF_LEN := 131072\<rparr>)"
    by simp_all
  note w3 = iobus_write_count_unchecked [OF idle a, of False]
  note w = iobus_write_count_unchecked [OF idle b, of False]
  from w3 have "iobus_write h0 False [0x05, 0x01, 0x02] 3 dev0 =
     Inr (Done 3, snd (projr (iobus_write h0 False [0x05, 0x01, 0x02] 3 dev0)))"
    by (rule conjunct1)
  moreover from w3
  have "\<forall>i < unat (3 :: u32).
          send_buf (snd (projr (iobus_write h0 False [0x05, 0x01, 0x02] 3 dev0))) i
            = [0x05, 0x01, 0x02] ! i"
    by (elim conjE)
  then have "send_buf (snd (projr (iobus_write h0 False [0x05, 0x01, 0x02] 3 dev0))) 2 = 0x02"
    by simp
  moreover from w
  have "iobus_write (h0\<lparr>SEND_BUF_LEN := 131072\<rparr>) False (replicate 65537 0x05) 65537 dev0 =
       Inr (Done 65537,
            snd (projr (iobus_write (h0\<lparr>SEND_BUF_LEN := 131072\<rparr>) False
                          (replicate 65537 0x05) 65537 dev0)))"
    by (rule conjunct1)
  moreover from w
  have "unat (ucast ((65537 :: u32) AND 0xFF) :: u8)
          + 256 * unat (ucast (drop_bit 8 (65537 :: u32) AND 0xFF) :: u8)
        = unat (65537 :: u32) mod 65536"
    by (elim conjE)
  then have "unat (ucast ((65537 :: u32) AND 0xFF) :: u8)
          + 256 * unat (ucast (drop_bit 8 (65537 :: u32) AND 0xFF) :: u8) = 1"
    by simp
  ultimately show ?thesis by blast
qed

subsection \<open>Read\<close>

lemma copy_to_user_ok:
  "n \<le> writable \<Longrightarrow> copy_to_user writable from n = (0, map from [0..<n])"
  by (simp add: copy_to_user_def min_def)

lemma iobus_read_idle:
  "recv_stat s = IDLE \<Longrightarrow>
   iobus_read nb writable count s =
     (if recv_bytes s \<le> writable
      then (Done (recv_bytes s), map (recv_buf s) [0..<recv_bytes s], s\<lparr>recv_stat := BUSY\<rparr>)
      else (Err EFAULT, map (recv_buf s) [0..<writable], s))"
  by (simp add: iobus_read_def copy_to_user_def min_def Let_def)

lemma iobus_read_busy:
  "recv_stat s = BUSY \<Longrightarrow>
   iobus_read nb writable count s = (if nb then Err EAGAIN else Sleep RECV_WQ, [], s)"
  by (simp add: iobus_read_def)

text \<open>
  C5. A read call made when the receive state is idle. If the caller's memory takes
  all \<open>recv_bytes\<close> bytes, the call delivers the first \<open>recv_bytes\<close> bytes of the
  receive buffer, returns \<open>recv_bytes\<close>, and changes nothing in the device but the
  receive state, which becomes busy. If the copy cannot complete, the call returns
  \<^verbatim>\<open>EFAULT\<close> and leaves the device as it was: the receive state stays idle and the
  send state is untouched.
\<close>

theorem iobus_read_when_idle:
  assumes "recv_stat s = IDLE"
  shows "(recv_bytes s \<le> writable \<longrightarrow>
            iobus_read nb writable count s =
              (Done (recv_bytes s), map (recv_buf s) [0..<recv_bytes s],
               s\<lparr>recv_stat := BUSY\<rparr>))
       \<and> (writable < recv_bytes s \<longrightarrow>
            fst (iobus_read nb writable count s) = Err EFAULT \<and>
            snd (snd (iobus_read nb writable count s)) = s \<and>
            recv_stat (snd (snd (iobus_read nb writable count s))) = IDLE \<and>
            send_stat (snd (snd (iobus_read nb writable count s))) = send_stat s)"
  using assms by (simp add: iobus_read_idle)

theorem iobus_read_when_idle_witness:
  "iobus_read False 16 16 (dev0\<lparr>recv_stat := IDLE, recv_buf := (\<lambda>i. 0x7E), recv_bytes := 2\<rparr>)
     = (Done 2, [0x7E, 0x7E],
        dev0\<lparr>recv_stat := IDLE, recv_buf := (\<lambda>i. 0x7E), recv_bytes := 2,
             recv_stat := BUSY\<rparr>)
   \<and> fst (iobus_read False 1 16
           (dev0\<lparr>recv_stat := IDLE, recv_buf := (\<lambda>i. 0x7E), recv_bytes := 2\<rparr>))
     = Err EFAULT
   \<and> recv_stat (snd (snd (iobus_read False 1 16
           (dev0\<lparr>recv_stat := IDLE, recv_buf := (\<lambda>i. 0x7E), recv_bytes := 2\<rparr>))))
     = IDLE"
  using
    iobus_read_when_idle
      [of "dev0\<lparr>recv_stat := IDLE, recv_buf := (\<lambda>i. 0x7E), recv_bytes := 2\<rparr>" 16 False 16]
    iobus_read_when_idle
      [of "dev0\<lparr>recv_stat := IDLE, recv_buf := (\<lambda>i. 0x7E), recv_bytes := 2\<rparr>" 1 False 16]
  by (simp add: upt_rec [of 0] upt_rec [of "Suc 0"] numeral_2_eq_2)

text \<open>
  C6. A non-blocking write on a busy transmitter and a non-blocking read on a busy
  receiver return \<^verbatim>\<open>EAGAIN\<close> and leave the whole device state as it was: the two
  states, both buffers, the pin registers, and the trace, so no bus cycle reached
  the CPLD.
\<close>

theorem nonblocking_busy_would_block:
  "(send_stat s = BUSY \<longrightarrow> iobus_write h True ubuf count s = Inr (Err EAGAIN, s))
   \<and> (recv_stat s = BUSY \<longrightarrow> iobus_read True writable capacity s = (Err EAGAIN, [], s))"
  by (simp add: iobus_write_busy iobus_read_busy)

theorem nonblocking_busy_would_block_witness:
  "iobus_write h0 True [0x05, 0x01] 2 (dev0\<lparr>send_stat := BUSY\<rparr>)
     = Inr (Err EAGAIN, dev0\<lparr>send_stat := BUSY\<rparr>)
   \<and> iobus_read True 16 16 dev0 = (Err EAGAIN, [], dev0)"
  using nonblocking_busy_would_block [of "dev0\<lparr>send_stat := BUSY\<rparr>" h0 "[0x05, 0x01]" 2]
    nonblocking_busy_would_block [of dev0 h0 "[]" 0 16 16]
  by (simp add: dev0_def)

text \<open>
  C9. A read call that succeeds returns \<open>recv_bytes\<close> and delivers exactly the first
  \<open>recv_bytes\<close> bytes of the receive buffer, and the call does the same whatever
  capacity the caller states: the capacity bounds nothing.
\<close>

theorem iobus_read_ignores_capacity:
  assumes "fst (iobus_read nb writable capacity s) = Done n"
  shows "n = recv_bytes s
       \<and> fst (snd (iobus_read nb writable capacity s)) = map (recv_buf s) [0..<recv_bytes s]
       \<and> length (fst (snd (iobus_read nb writable capacity s))) = recv_bytes s
       \<and> iobus_read nb writable capacity' s = iobus_read nb writable capacity s"
proof -
  have same: "iobus_read nb writable capacity' s = iobus_read nb writable capacity s"
    by (simp add: iobus_read_def)
  show ?thesis
  proof (cases "recv_stat s")
    case IDLE
    with assms show ?thesis
      by (simp add: iobus_read_idle same split: if_splits)
  next
    case BUSY
    with assms show ?thesis
      by (simp add: iobus_read_busy split: if_splits)
  qed
qed

theorem iobus_read_ignores_capacity_witness:
  "fst (iobus_read False 16 1
          (dev0\<lparr>recv_stat := IDLE, recv_buf := (\<lambda>i. 0x7E), recv_bytes := 2\<rparr>)) = Done 2
   \<and> length (fst (snd (iobus_read False 16 1
          (dev0\<lparr>recv_stat := IDLE, recv_buf := (\<lambda>i. 0x7E), recv_bytes := 2\<rparr>)))) = 2"
proof -
  have ok: "fst (iobus_read False 16 1
          (dev0\<lparr>recv_stat := IDLE, recv_buf := (\<lambda>i. 0x7E), recv_bytes := 2\<rparr>)) = Done 2"
    by (simp add: iobus_read_def copy_to_user_def)
  from iobus_read_ignores_capacity [OF ok] ok show ?thesis by simp
qed


subsection \<open>The drain loop\<close>

lemma Suc_shift:
  "Suc a \<le> i \<Longrightarrow> Suc (k + (i - Suc a)) = k + (i - a)"
  "Suc a \<le> i \<Longrightarrow> Suc (k + i - Suc a) = k + i - a"
  "a < i \<Longrightarrow> Suc (k + (i - Suc a)) = k + (i - a)"
  "a < i \<Longrightarrow> Suc (k + i - Suc a) = k + i - a"
  by arith+

text \<open>A drain that stays within the receive buffer ends in a state.\<close>

lemma recv_loop_Inr:
  "recv_bytes s \<le> RECV_BUF_LEN h \<Longrightarrow>
   hdlc_recv_loop h a s = Inr (projr (hdlc_recv_loop h a s))"
  by (induction h a s rule: hdlc_recv_loop.induct;
      subst hdlc_recv_loop.simps; subst (2) hdlc_recv_loop.simps; simp add: read_cpld_eq)

text \<open>A drain of more bytes than the receive buffer has elements overruns it.\<close>

lemma recv_loop_overrun:
  "RECV_BUF_LEN h < recv_bytes s \<Longrightarrow> a \<le> RECV_BUF_LEN h \<Longrightarrow>
   hdlc_recv_loop h a s = Inl BUFFER_OVERRUN"
  by (induction h a s rule: hdlc_recv_loop.induct;
      subst hdlc_recv_loop.simps; simp add: read_cpld_eq)

lemma recv_loop_frame:
  assumes "recv_bytes s \<le> RECV_BUF_LEN h"
  shows "recv_bytes (projr (hdlc_recv_loop h a s)) = recv_bytes s"
    and "send_buf (projr (hdlc_recv_loop h a s)) = send_buf s"
    and "send_stat (projr (hdlc_recv_loop h a s)) = send_stat s"
    and "recv_stat (projr (hdlc_recv_loop h a s)) = recv_stat s"
    and "send_wakeups (projr (hdlc_recv_loop h a s)) = send_wakeups s"
    and "recv_wakeups (projr (hdlc_recv_loop h a s)) = recv_wakeups s"
    and "gpio3_dr_in (projr (hdlc_recv_loop h a s)) = gpio3_dr_in s"
  using assms
  by (induction h a s rule: hdlc_recv_loop.induct;
      subst hdlc_recv_loop.simps; simp add: read_cpld_eq)+

lemma recv_loop_rd_byte:
  "recv_bytes s \<le> RECV_BUF_LEN h \<Longrightarrow> rd_byte (projr (hdlc_recv_loop h a s)) = rd_byte s"
  by (simp add: rd_byte_def fun_eq_iff recv_loop_frame)

lemma recv_loop_nread:
  "recv_bytes s \<le> RECV_BUF_LEN h \<Longrightarrow>
   nread (projr (hdlc_recv_loop h a s)) = nread s + (recv_bytes s - a)"
  by (induction h a s rule: hdlc_recv_loop.induct;
      subst hdlc_recv_loop.simps; simp add: read_cpld_eq Suc_shift)

lemma recv_loop_buf:
  "recv_bytes s \<le> RECV_BUF_LEN h \<Longrightarrow>
   recv_buf (projr (hdlc_recv_loop h a s)) i =
     (if a \<le> i \<and> i < recv_bytes s then rd_byte s (nread s + (i - a)) else recv_buf s i)"
proof (induction h a s arbitrary: i rule: hdlc_recv_loop.induct)
  case (1 h addr s)
  show ?case
  proof (cases "addr < recv_bytes s")
    case True
    with "1.prems" have fit: "\<not> RECV_BUF_LEN h \<le> addr" by simp
    from True fit "1.prems" show ?thesis
      using "1.IH" [OF True fit, of i]
      by (subst hdlc_recv_loop.simps) (auto simp: read_cpld_eq Suc_shift)
  next
    case False
    then show ?thesis by (subst hdlc_recv_loop.simps) auto
  qed
qed

lemma recv_loop_log:
  "recv_bytes s \<le> RECV_BUF_LEN h \<Longrightarrow>
   pin_log (projr (hdlc_recv_loop h a s)) =
     pin_log s @ concat (map (\<lambda>i. rd_cycle (of_nat i) (rd_byte s (nread s + (i - a))))
                           [a..<recv_bytes s])"
proof (induction h a s rule: hdlc_recv_loop.induct)
  case (1 h addr s)
  show ?case
  proof (cases "addr < recv_bytes s")
    case True
    with "1.prems" have fit: "\<not> RECV_BUF_LEN h \<le> addr" by simp
    have eq: "map (\<lambda>i. rd_cycle (of_nat i) (rd_byte s (Suc (nread s + (i - Suc addr)))))
                [Suc addr..<recv_bytes s] =
              map (\<lambda>i. rd_cycle (of_nat i) (rd_byte s (nread s + (i - addr))))
                [Suc addr..<recv_bytes s]"
      by (rule map_cong) (auto simp: Suc_shift)
    from True fit "1.prems" show ?thesis
      using "1.IH" [OF True fit]
      by (subst hdlc_recv_loop.simps) (simp add: read_cpld_eq upt_conv_Cons eq)
  next
    case False
    then show ?thesis by (subst hdlc_recv_loop.simps) simp
  qed
qed

lemma recv_loop_irq_log:
  "recv_bytes s \<le> RECV_BUF_LEN h \<Longrightarrow>
   irq_log (projr (hdlc_recv_loop h a s)) =
     irq_log s @ map (\<lambda>i. STORE_RECV_BUF i (rd_byte s (nread s + (i - a))))
                   [a..<recv_bytes s]"
proof (induction h a s rule: hdlc_recv_loop.induct)
  case (1 h addr s)
  show ?case
  proof (cases "addr < recv_bytes s")
    case True
    with "1.prems" have fit: "\<not> RECV_BUF_LEN h \<le> addr" by simp
    have eq: "map (\<lambda>i. STORE_RECV_BUF i (rd_byte s (Suc (nread s + (i - Suc addr)))))
                [Suc addr..<recv_bytes s] =
              map (\<lambda>i. STORE_RECV_BUF i (rd_byte s (nread s + (i - addr))))
                [Suc addr..<recv_bytes s]"
      by (rule map_cong) (auto simp: Suc_shift)
    from True fit "1.prems" show ?thesis
      using "1.IH" [OF True fit]
      by (subst hdlc_recv_loop.simps) (simp add: read_cpld_eq upt_conv_Cons eq)
  next
    case False
    then show ?thesis by (subst hdlc_recv_loop.simps) simp
  qed
qed

lemma recv_loop_drained:
  "recv_bytes s \<le> RECV_BUF_LEN h \<Longrightarrow>
   pin_log (projr (hdlc_recv_loop h 0 s)) =
     pin_log s @ drained_frame (rd_byte s) (nread s) (recv_bytes s)"
  by (simp add: recv_loop_log drained_frame_def)

subsection \<open>The received length\<close>

lemma recv_len:
  "unat (((ucast (lo :: u8) :: u32) OR push_bit 8 (ucast (hi :: u8))) AND 0xFFFF)
     = unat lo + 256 * unat hi"
proof -
  let ?w = "(ucast lo :: u32) OR push_bit 8 (ucast hi)"
  have m: "(0xFFFF :: u32) = mask 16" by (simp add: mask_eq_exp_minus_1)
  have disj: "(ucast lo :: u32) AND push_bit 8 (ucast hi) = 0"
    by (rule bit_word_eqI) (auto simp: bit_simps dest: bit_imp_le_length)
  have w: "?w = ucast lo + push_bit 8 (ucast hi)"
    using disjunctive_add_eq_or [OF disj] by simp
  have small: "?w AND 0xFFFF = ?w"
    unfolding m
    by (rule bit_word_eqI) (auto simp: bit_simps dest: bit_imp_le_length)
  have bound: "unat lo < 256" "unat hi < 256"
    using unsigned_less [of lo] unsigned_less [of hi] by simp_all
  have up: "unat (ucast b :: u32) = unat b" for b :: u8
    by (simp add: unsigned_ucast_eq take_bit_nat_eq_self_iff unsigned_less [THEN less_trans])
  have h: "unat (push_bit 8 (ucast hi :: u32)) = 256 * unat hi"
  proof -
    from bound have "256 * unat hi < 2 ^ 32" by simp
    then show ?thesis
      by (subst unsigned_push_bit_eq) (simp add: up push_bit_eq_mult take_bit_nat_eq_self)
  qed
  from bound
  have "unat (ucast lo :: u32) + unat (push_bit 8 (ucast hi :: u32)) < 2 ^ LENGTH(32)"
    by (simp add: up h)
  then have "unat ((ucast lo :: u32) + push_bit 8 (ucast hi)) = unat lo + 256 * unat hi"
    by (simp only: unat_add_lem [THEN iffD1] up h)
  then show ?thesis
    by (subst small, subst w)
qed


subsection \<open>The receive-complete branch\<close>

lemma recv_loop_not_isl:
  "recv_bytes s \<le> RECV_BUF_LEN h \<Longrightarrow> isl (hdlc_recv_loop h a s) = False"
  using recv_loop_Inr [of s h a] by (metis sum.disc(2))

text \<open>
  The branch on a length that the receive buffer holds: the result, the two
  traces, and the state it leaves.
\<close>

lemma recv_complete_fields:
  fixes s h
  defines "k \<equiv> nread s"
  defines "n \<equiv> unat (rd_byte s k) + 256 * unat (rd_byte s (Suc k))"
  assumes fit: "n \<le> RECV_BUF_LEN h"
  shows "hdlc_recv_complete h s = Inr (projr (hdlc_recv_complete h s))"
    and "recv_bytes (projr (hdlc_recv_complete h s)) = n"
    and "recv_buf (projr (hdlc_recv_complete h s)) =
           (\<lambda>i. if i < n then rd_byte s (k + 2 + i) else recv_buf s i)"
    and "pin_log (projr (hdlc_recv_complete h s)) =
           pin_log s @ rd_cycle (RDN1 h) (rd_byte s k) @ rd_cycle (RDN2 h) (rd_byte s (Suc k))
             @ drained_frame (rd_byte s) (k + 2) n
             @ rd_cycle (RTER h) (rd_byte s (k + 2 + n))
             @ wr_cycle (RTER h) (rd_byte s (k + 2 + n) OR HREC_EN h)"
    and "irq_log (projr (hdlc_recv_complete h s)) =
           irq_log s @ STORE_RECV_BYTES n
             # map (\<lambda>i. STORE_RECV_BUF i (rd_byte s (k + 2 + i))) [0..<n]
             @ [STORE_RECV_STAT IDLE, WAKE_UP RECV_WQ]"
    and "recv_stat (projr (hdlc_recv_complete h s)) = IDLE"
    and "recv_wakeups (projr (hdlc_recv_complete h s)) = Suc (recv_wakeups s)"
    and "send_stat (projr (hdlc_recv_complete h s)) = send_stat s"
    and "send_wakeups (projr (hdlc_recv_complete h s)) = send_wakeups s"
    and "send_buf (projr (hdlc_recv_complete h s)) = send_buf s"
  using fit
  unfolding hdlc_recv_complete_def recv_len k_def n_def
  by (simp_all add: Let_def split_beta sum.case_eq_if recv_loop_not_isl read_cpld_eq
      write_cpld_eq recv_loop_frame recv_loop_rd_byte recv_loop_nread recv_loop_buf
      recv_loop_drained recv_loop_irq_log fun_eq_iff)

text \<open>The branch on a length that the receive buffer does not hold.\<close>

lemma recv_complete_overrun:
  fixes s h
  defines "n \<equiv> unat (rd_byte s (nread s)) + 256 * unat (rd_byte s (Suc (nread s)))"
  assumes "RECV_BUF_LEN h < n"
  shows "hdlc_recv_complete h s = Inl BUFFER_OVERRUN"
  using assms(2)
  unfolding hdlc_recv_complete_def recv_len n_def
  by (simp add: Let_def split_beta read_cpld_eq recv_loop_overrun)

subsection \<open>The handler\<close>

text \<open>The state in which the handler looks at the status it has read.\<close>

lemma handler_entry:
  assumes "irq = GPIO4_15_irq h"
  shows "hdlc_interrupt_handler h irq s =
     (let s3 = snd (read_cpld (ISR h) (s\<lparr>gpio1_dr := 0xfffffeff AND (0x100 OR gpio1_dr s)\<rparr>));
          isr = rd_byte s (nread s)
      in if isr AND RMC h \<noteq> 0
         then (if rd_byte s (Suc (nread s)) = 0
               then (case hdlc_recv_complete h (snd (read_cpld (RSR h) s3)) of
                       Inl f \<Rightarrow> Inl f
                     | Inr s5 \<Rightarrow> Inr (IRQ_HANDLED, s5))
               else Inr (hdlc_send_complete h isr (snd (read_cpld (RSR h) s3))))
         else Inr (hdlc_send_complete h isr s3))"
  using assms
  by (simp add: hdlc_interrupt_handler_def Let_def split_beta read_cpld_eq)

lemma send_complete_none:
  "isr AND TMC h = 0 \<Longrightarrow> hdlc_send_complete h isr s = (IRQ_NONE, s)"
  by (simp add: hdlc_send_complete_def)

lemma send_complete_fields:
  assumes "isr AND TMC h \<noteq> 0"
  shows "fst (hdlc_send_complete h isr s) = IRQ_HANDLED"
    and "send_stat (snd (hdlc_send_complete h isr s)) = IDLE"
    and "send_wakeups (snd (hdlc_send_complete h isr s)) = Suc (send_wakeups s)"
    and "pin_log (snd (hdlc_send_complete h isr s)) =
           pin_log s @ wr_cycle (RXTXEN h) (RXTXEN_R h)
             @ rd_cycle (RTER h) (rd_byte s (nread s))
             @ wr_cycle (RTER h) (rd_byte s (nread s) OR HREC_EN h)"
    and "irq_log (snd (hdlc_send_complete h isr s)) =
           irq_log s @ [STORE_SEND_STAT IDLE, WAKE_UP SEND_WQ]"
  using assms
  by (simp_all add: hdlc_send_complete_def Let_def split_beta read_cpld_eq write_cpld_eq)

text \<open>
  A completion event with the receive-complete flag set, the receive status zero
  and a length that the receive buffer holds: the result, the two traces, and the
  state the handler leaves.
\<close>

lemma handler_receive_ok:
  fixes s h irq
  defines "k \<equiv> nread s"
  defines "n \<equiv> unat (rd_byte s (k + 2)) + 256 * unat (rd_byte s (k + 3))"
  defines "s' \<equiv> snd (projr (hdlc_interrupt_handler h irq s))"
  assumes irq: "irq = GPIO4_15_irq h"
    and rmc: "rd_byte s k AND RMC h \<noteq> 0"
    and rsr: "rd_byte s (k + 1) = 0"
    and fit: "n \<le> RECV_BUF_LEN h"
  shows "hdlc_interrupt_handler h irq s = Inr (IRQ_HANDLED, s')"
    and "pin_log s' =
         pin_log s @ rd_cycle (ISR h) (rd_byte s k) @ rd_cycle (RSR h) 0
           @ rd_cycle (RDN1 h) (rd_byte s (k + 2)) @ rd_cycle (RDN2 h) (rd_byte s (k + 3))
           @ drained_frame (rd_byte s) (k + 4) n
           @ rd_cycle (RTER h) (rd_byte s (k + 4 + n))
           @ wr_cycle (RTER h) (rd_byte s (k + 4 + n) OR HREC_EN h)"
    and "irq_log s' =
         irq_log s @ STORE_RECV_BYTES n
           # map (\<lambda>i. STORE_RECV_BUF i (rd_byte s (k + 4 + i))) [0..<n]
           @ [STORE_RECV_STAT IDLE, WAKE_UP RECV_WQ]"
    and "recv_bytes s' = n"
    and "recv_buf s' = (\<lambda>i. if i < n then rd_byte s (k + 4 + i) else recv_buf s i)"
    and "recv_stat s' = IDLE"
    and "recv_wakeups s' = Suc (recv_wakeups s)"
    and "send_stat s' = send_stat s"
    and "send_wakeups s' = send_wakeups s"
proof -
  define s4 where
    "s4 = snd (read_cpld (RSR h)
            (snd (read_cpld (ISR h) (s\<lparr>gpio1_dr := 0xfffffeff AND (0x100 OR gpio1_dr s)\<rparr>))))"
  have s4: "nread s4 = k + 2" "rd_byte s4 = rd_byte s" "recv_stat s4 = recv_stat s"
    "recv_wakeups s4 = recv_wakeups s" "send_stat s4 = send_stat s"
    "send_wakeups s4 = send_wakeups s" "recv_buf s4 = recv_buf s" "irq_log s4 = irq_log s"
    "pin_log s4 = pin_log s @ rd_cycle (ISR h) (rd_byte s k) @ rd_cycle (RSR h) 0"
    using rsr by (simp_all add: s4_def read_cpld_eq k_def)
  have e: "k + 2 + 2 + i = k + 4 + i" for i by simp
  have e0: "k + 2 + 2 = k + 4" by simp
  have e3: "Suc (k + 2) = k + 3" by simp
  have fit4: "unat (rd_byte s4 (nread s4)) + 256 * unat (rd_byte s4 (Suc (nread s4)))
                \<le> RECV_BUF_LEN h"
    unfolding s4 e3 using fit unfolding n_def .
  note rc = recv_complete_fields [OF fit4]
  have "hdlc_interrupt_handler h irq s =
          (case hdlc_recv_complete h s4 of Inl f \<Rightarrow> Inl f | Inr s5 \<Rightarrow> Inr (IRQ_HANDLED, s5))"
    unfolding handler_entry [OF irq] Let_def s4_def using rmc rsr by (simp add: k_def)
  also have "\<dots> = Inr (IRQ_HANDLED, projr (hdlc_recv_complete h s4))"
    by (subst rc(1)) simp
  finally have res: "hdlc_interrupt_handler h irq s =
                       Inr (IRQ_HANDLED, projr (hdlc_recv_complete h s4))" .
  have s': "s' = projr (hdlc_recv_complete h s4)"
    by (simp add: s'_def res)
  show "hdlc_interrupt_handler h irq s = Inr (IRQ_HANDLED, s')"
    unfolding s' by (rule res)
  show "pin_log s' =
         pin_log s @ rd_cycle (ISR h) (rd_byte s k) @ rd_cycle (RSR h) 0
           @ rd_cycle (RDN1 h) (rd_byte s (k + 2)) @ rd_cycle (RDN2 h) (rd_byte s (k + 3))
           @ drained_frame (rd_byte s) (k + 4) n
           @ rd_cycle (RTER h) (rd_byte s (k + 4 + n))
           @ wr_cycle (RTER h) (rd_byte s (k + 4 + n) OR HREC_EN h)"
    using rc(4) [unfolded s4 e3 e0 e append_assoc, folded n_def s'] .
  show "irq_log s' =
         irq_log s @ STORE_RECV_BYTES n
           # map (\<lambda>i. STORE_RECV_BUF i (rd_byte s (k + 4 + i))) [0..<n]
           @ [STORE_RECV_STAT IDLE, WAKE_UP RECV_WQ]"
    using rc(5) [unfolded s4 e3 e, folded n_def s'] .
  show "recv_bytes s' = n"
    using rc(2) [unfolded s4 e3, folded n_def s'] .
  show "recv_buf s' = (\<lambda>i. if i < n then rd_byte s (k + 4 + i) else recv_buf s i)"
    using rc(3) [unfolded s4 e3 e, folded n_def s'] .
  show "recv_stat s' = IDLE" "recv_wakeups s' = Suc (recv_wakeups s)"
    "send_stat s' = send_stat s" "send_wakeups s' = send_wakeups s"
    using rc(6-9) [folded s'] by (simp_all add: s4)
qed

text \<open>What the CPLD sees of the trace of a receive-complete dispatch.\<close>

lemma receive_bus_ops:
  "bus_ops (rd_cycle a1 v1 @ rd_cycle a2 v2 @ rd_cycle a3 v3 @ rd_cycle a4 v4
            @ drained_frame rd k n @ rd_cycle a5 v5 @ wr_cycle a5 d5) =
     BUS_READ (addr_lines a1) v1 # BUS_READ (addr_lines a2) v2
       # BUS_READ (addr_lines a3) v3 # BUS_READ (addr_lines a4) v4
       # map (\<lambda>i. BUS_READ (addr_lines (of_nat i)) (rd (k + i))) [0..<n]
       @ [BUS_READ (addr_lines a5) v5, BUS_WRITE (addr_lines a5) d5]"
  unfolding bus_ops_def
  by (rule parse_drained parse_wr parse_rd parse_wr_last)+

lemma handler_receive_overrun:
  fixes s h irq
  defines "k \<equiv> nread s"
  assumes irq: "irq = GPIO4_15_irq h"
    and rmc: "rd_byte s k AND RMC h \<noteq> 0"
    and rsr: "rd_byte s (k + 1) = 0"
    and over: "RECV_BUF_LEN h < unat (rd_byte s (k + 2)) + 256 * unat (rd_byte s (k + 3))"
  shows "hdlc_interrupt_handler h irq s = Inl BUFFER_OVERRUN"
proof -
  define s4 where
    "s4 = snd (read_cpld (RSR h)
            (snd (read_cpld (ISR h) (s\<lparr>gpio1_dr := 0xfffffeff AND (0x100 OR gpio1_dr s)\<rparr>))))"
  have s4: "nread s4 = k + 2" "rd_byte s4 = rd_byte s"
    by (simp_all add: s4_def read_cpld_eq k_def)
  have e3: "Suc (k + 2) = k + 3" by simp
  have over4: "RECV_BUF_LEN h
                 < unat (rd_byte s4 (nread s4)) + 256 * unat (rd_byte s4 (Suc (nread s4)))"
    unfolding s4 e3 by (rule over)
  have "hdlc_interrupt_handler h irq s =
          (case hdlc_recv_complete h s4 of Inl f \<Rightarrow> Inl f | Inr s5 \<Rightarrow> Inr (IRQ_HANDLED, s5))"
    unfolding handler_entry [OF irq] Let_def s4_def using rmc rsr by (simp add: k_def)
  then show ?thesis
    by (simp add: recv_complete_overrun [OF over4])
qed

lemma sample_reads:
  "rd_byte dev_frame = (\<lambda>k. data_byte (pads_of [0x010000, 0, 0x020000, 0, 0x050000, 0xAA0000, 0] k))"
  "nread dev_frame = 0"
  "rd_byte dev_rx_error = (\<lambda>k. data_byte (pads_of [0x030000, 0x010000, 0] k))"
  "nread dev_rx_error = 0"
  "rd_byte dev_long = (\<lambda>k. data_byte (pads_of [0x010000, 0, 0x010000, 0x040000] k))"
  "nread dev_long = 0"
  by (simp_all add: dev_frame_def dev_rx_error_def dev_long_def dev0_def rd_byte_def
      fun_eq_iff)

lemma sample_bytes:
  "data_byte 0 = 0" "data_byte 0x010000 = 1" "data_byte 0x020000 = 2"
  "data_byte 0x030000 = 3" "data_byte 0x040000 = 4" "data_byte 0x050000 = 5"
  "data_byte 0xAA0000 = 0xAA"
  by (simp_all add: data_byte_def CPLD_DATA_SHIFT_def GPIO3_DATA_MSK_def)

text \<open>
  C2, as stated, on the sample state \<open>dev_long\<close>: the status has the
  receive-complete flag set, the receive status is zero and the length registers
  state 1025 bytes. The handler's 1025th read of the frame, with the address
  argument 1024, puts 0 on the ten address lines, as its first read did: that byte
  is not read from the RAM offset 1024. And with a receive buffer of 1024 elements
  in the place of the sample map's 65535, the drain of the same frame overruns the
  buffer.
\<close>

theorem handler_drain_aliased_counterexample:
  "hdlc_interrupt_handler h0 111 dev_long =
     Inr (IRQ_HANDLED, snd (projr (hdlc_interrupt_handler h0 111 dev_long)))
   \<and> recv_bytes (snd (projr (hdlc_interrupt_handler h0 111 dev_long))) = 1025
   \<and> bus_ops (pin_log (snd (projr (hdlc_interrupt_handler h0 111 dev_long)))) ! 4
       = BUS_READ 0 0
   \<and> bus_ops (pin_log (snd (projr (hdlc_interrupt_handler h0 111 dev_long)))) ! 1028
       = BUS_READ 0 0
   \<and> hdlc_interrupt_handler (h0\<lparr>RECV_BUF_LEN := 1024\<rparr>) 111 dev_long = Inl BUFFER_OVERRUN"
proof -
  let ?s' = "snd (projr (hdlc_interrupt_handler h0 111 dev_long))"
  have irq: "111 = GPIO4_15_irq h0" "111 = GPIO4_15_irq (h0\<lparr>RECV_BUF_LEN := 1024\<rparr>)"
    by (simp_all add: h0_def)
  have rmc: "rd_byte dev_long (nread dev_long) AND RMC h0 \<noteq> 0"
    "rd_byte dev_long (nread dev_long) AND RMC (h0\<lparr>RECV_BUF_LEN := 1024\<rparr>) \<noteq> 0"
    by (simp_all add: sample_reads pads_of_def sample_bytes h0_def)
  have rsr: "rd_byte dev_long (nread dev_long + 1) = 0"
    by (simp add: sample_reads pads_of_def sample_bytes)
  have n: "unat (rd_byte dev_long (nread dev_long + 2))
             + 256 * unat (rd_byte dev_long (nread dev_long + 3)) = 1025"
    by (simp add: sample_reads pads_of_def sample_bytes)
  have fit: "unat (rd_byte dev_long (nread dev_long + 2))
               + 256 * unat (rd_byte dev_long (nread dev_long + 3)) \<le> RECV_BUF_LEN h0"
    unfolding n by (simp add: h0_def)
  have over: "RECV_BUF_LEN (h0\<lparr>RECV_BUF_LEN := 1024\<rparr>)
                < unat (rd_byte dev_long (nread dev_long + 2))
                    + 256 * unat (rd_byte dev_long (nread dev_long + 3))"
    unfolding n by simp
  note ok = handler_receive_ok [OF irq(1) rmc(1) rsr fit, unfolded n]
  have log0: "pin_log dev_long = []" by (simp add: dev_long_def dev0_def)
  have ops: "bus_ops (pin_log ?s') =
     BUS_READ (addr_lines (ISR h0)) (rd_byte dev_long (nread dev_long))
       # BUS_READ (addr_lines (RSR h0)) 0
       # BUS_READ (addr_lines (RDN1 h0)) (rd_byte dev_long (nread dev_long + 2))
       # BUS_READ (addr_lines (RDN2 h0)) (rd_byte dev_long (nread dev_long + 3))
       # map (\<lambda>i. BUS_READ (addr_lines (of_nat i)) (rd_byte dev_long (nread dev_long + 4 + i)))
           [0..<1025]
       @ [BUS_READ (addr_lines (RTER h0)) (rd_byte dev_long (nread dev_long + 4 + 1025)),
          BUS_WRITE (addr_lines (RTER h0))
            (rd_byte dev_long (nread dev_long + 4 + 1025) OR HREC_EN h0)]"
    unfolding ok(2) log0 append_Nil by (rule receive_bus_ops)
  have "bus_ops (pin_log ?s') ! 4 = BUS_READ 0 0"
    unfolding ops
    by (simp add: nth_append addr_lines_def sample_reads pads_of_def sample_bytes)
  moreover have "bus_ops (pin_log ?s') ! 1028 = BUS_READ 0 0"
    unfolding ops
    by (simp add: nth_append addr_lines_def sample_reads pads_of_def sample_bytes)
  moreover have "hdlc_interrupt_handler (h0\<lparr>RECV_BUF_LEN := 1024\<rparr>) 111 dev_long
                   = Inl BUFFER_OVERRUN"
    by (rule handler_receive_overrun [OF irq(2) rmc(2) rsr over])
  ultimately show ?thesis using ok(1) ok(4) by blast
qed

text \<open>
  C2, amended. A completion event whose status has the receive-complete flag set,
  whose receive status reads zero, and whose length \<open>n\<close>, the 16-bit value of the
  two length registers, does not exceed the length of the receive buffer. The
  handler returns \<^verbatim>\<open>IRQ_HANDLED\<close>. After the status and the receive status it reads
  the low and the high length register, then performs \<open>n\<close> read cycles with the
  address arguments 0 to \<open>n - 1\<close> in order, each putting the low ten bits of its
  argument on the address lines (the offsets 0 to \<open>n - 1\<close> themselves for \<open>n\<close> up
  to 1024); then it reads the arm register and writes it back with the receive-arm bit
  set. Its stores and wake-ups are, in program order: \<open>n\<close> to \<open>recv_bytes\<close>; byte
  \<open>i\<close> read to \<open>recv_buf[i]\<close>, for \<open>i\<close> from 0 to \<open>n - 1\<close>; idle to the receive
  state; the wake-up of the readers. So the count is stored and the buffer filled
  before the receive state becomes idle. The send state and the writers' queue are
  left alone, and the only write cycle of the dispatch is the one to the arm
  register.
\<close>

theorem handler_receive_complete:
  fixes s h irq
  defines "k \<equiv> nread s"
  defines "n \<equiv> unat (rd_byte s (k + 2)) + 256 * unat (rd_byte s (k + 3))"
  defines "s' \<equiv> snd (projr (hdlc_interrupt_handler h irq s))"
  assumes "irq = GPIO4_15_irq h"
    and "rd_byte s k AND RMC h \<noteq> 0"
    and "rd_byte s (k + 1) = 0"
    and "n \<le> RECV_BUF_LEN h"
  shows "hdlc_interrupt_handler h irq s = Inr (IRQ_HANDLED, s')
     \<and> pin_log s' =
         pin_log s @ rd_cycle (ISR h) (rd_byte s k) @ rd_cycle (RSR h) 0
           @ rd_cycle (RDN1 h) (rd_byte s (k + 2)) @ rd_cycle (RDN2 h) (rd_byte s (k + 3))
           @ drained_frame (rd_byte s) (k + 4) n
           @ rd_cycle (RTER h) (rd_byte s (k + 4 + n))
           @ wr_cycle (RTER h) (rd_byte s (k + 4 + n) OR HREC_EN h)
     \<and> bus_ops (emitted s s') =
         BUS_READ (addr_lines (ISR h)) (rd_byte s k)
           # BUS_READ (addr_lines (RSR h)) 0
           # BUS_READ (addr_lines (RDN1 h)) (rd_byte s (k + 2))
           # BUS_READ (addr_lines (RDN2 h)) (rd_byte s (k + 3))
           # map (\<lambda>i. BUS_READ (addr_lines (of_nat i)) (rd_byte s (k + 4 + i))) [0..<n]
           @ [BUS_READ (addr_lines (RTER h)) (rd_byte s (k + 4 + n)),
              BUS_WRITE (addr_lines (RTER h)) (rd_byte s (k + 4 + n) OR HREC_EN h)]
     \<and> irq_log s' =
         irq_log s @ STORE_RECV_BYTES n
           # map (\<lambda>i. STORE_RECV_BUF i (rd_byte s (k + 4 + i))) [0..<n]
           @ [STORE_RECV_STAT IDLE, WAKE_UP RECV_WQ]
     \<and> recv_bytes s' = n
     \<and> (\<forall>i < n. recv_buf s' i = rd_byte s (k + 4 + i))
     \<and> recv_stat s' = IDLE
     \<and> recv_wakeups s' = Suc (recv_wakeups s)
     \<and> send_stat s' = send_stat s
     \<and> send_wakeups s' = send_wakeups s"
proof -
  note ok = handler_receive_ok
    [OF assms(4-7) [unfolded n_def k_def], folded k_def, folded n_def s'_def]
  have ops: "bus_ops (emitted s s') =
         BUS_READ (addr_lines (ISR h)) (rd_byte s k)
           # BUS_READ (addr_lines (RSR h)) 0
           # BUS_READ (addr_lines (RDN1 h)) (rd_byte s (k + 2))
           # BUS_READ (addr_lines (RDN2 h)) (rd_byte s (k + 3))
           # map (\<lambda>i. BUS_READ (addr_lines (of_nat i)) (rd_byte s (k + 4 + i))) [0..<n]
           @ [BUS_READ (addr_lines (RTER h)) (rd_byte s (k + 4 + n)),
              BUS_WRITE (addr_lines (RTER h)) (rd_byte s (k + 4 + n) OR HREC_EN h)]"
    unfolding emitted_append [OF ok(2)] by (rule receive_bus_ops)
  have buf: "\<forall>i < n. recv_buf s' i = rd_byte s (k + 4 + i)"
    by (simp add: ok(5))
  from ok(1,2,3,4) ok(6-9) ops buf show ?thesis by blast
qed

theorem handler_receive_complete_witness:
  "hdlc_interrupt_handler h0 111 dev_frame =
     Inr (IRQ_HANDLED, snd (projr (hdlc_interrupt_handler h0 111 dev_frame)))
   \<and> irq_log (snd (projr (hdlc_interrupt_handler h0 111 dev_frame))) =
       [STORE_RECV_BYTES 2, STORE_RECV_BUF 0 0x05, STORE_RECV_BUF 1 0xAA,
        STORE_RECV_STAT IDLE, WAKE_UP RECV_WQ]
   \<and> recv_bytes (snd (projr (hdlc_interrupt_handler h0 111 dev_frame))) = 2
   \<and> recv_buf (snd (projr (hdlc_interrupt_handler h0 111 dev_frame))) 0 = 0x05
   \<and> recv_buf (snd (projr (hdlc_interrupt_handler h0 111 dev_frame))) 1 = 0xAA
   \<and> recv_stat (snd (projr (hdlc_interrupt_handler h0 111 dev_frame))) = IDLE
   \<and> recv_wakeups (snd (projr (hdlc_interrupt_handler h0 111 dev_frame))) = 1
   \<and> send_stat (snd (projr (hdlc_interrupt_handler h0 111 dev_frame))) = IDLE"
proof -
  let ?s' = "snd (projr (hdlc_interrupt_handler h0 111 dev_frame))"
  have irq: "111 = GPIO4_15_irq h0" by (simp add: h0_def)
  have rmc: "rd_byte dev_frame (nread dev_frame) AND RMC h0 \<noteq> 0"
    by (simp add: sample_reads pads_of_def sample_bytes h0_def)
  have rsr: "rd_byte dev_frame (nread dev_frame + 1) = 0"
    by (simp add: sample_reads pads_of_def sample_bytes)
  have n: "unat (rd_byte dev_frame (nread dev_frame + 2))
             + 256 * unat (rd_byte dev_frame (nread dev_frame + 3)) = 2"
    by (simp add: sample_reads pads_of_def sample_bytes)
  have fit: "unat (rd_byte dev_frame (nread dev_frame + 2))
               + 256 * unat (rd_byte dev_frame (nread dev_frame + 3)) \<le> RECV_BUF_LEN h0"
    unfolding n by (simp add: h0_def)
  have up: "[0..<2] = [0, 1]"
    by (simp add: upt_rec [of 0] upt_rec [of "Suc 0"] numeral_2_eq_2)
  have il: "irq_log dev_frame = []" by (simp add: dev_frame_def dev0_def)
  note w = handler_receive_complete [OF irq rmc rsr fit, unfolded n]
  from w have "\<forall>i < 2. recv_buf ?s' i = rd_byte dev_frame (nread dev_frame + 4 + i)"
    by (elim conjE)
  then have "recv_buf ?s' 0 = 0x05" "recv_buf ?s' 1 = 0xAA"
    by (simp_all add: sample_reads pads_of_def sample_bytes)
  moreover from w have "irq_log ?s' =
      irq_log dev_frame @ STORE_RECV_BYTES 2
        # map (\<lambda>i. STORE_RECV_BUF i (rd_byte dev_frame (nread dev_frame + 4 + i))) [0..<2]
        @ [STORE_RECV_STAT IDLE, WAKE_UP RECV_WQ]"
    by (elim conjE)
  then have "irq_log ?s' =
       [STORE_RECV_BYTES 2, STORE_RECV_BUF 0 0x05, STORE_RECV_BUF 1 0xAA,
        STORE_RECV_STAT IDLE, WAKE_UP RECV_WQ]"
    by (simp add: up sample_reads pads_of_def sample_bytes il)
  moreover from w have "hdlc_interrupt_handler h0 111 dev_frame = Inr (IRQ_HANDLED, ?s')"
    "recv_bytes ?s' = 2" "recv_stat ?s' = IDLE"
    "recv_wakeups ?s' = Suc (recv_wakeups dev_frame)"
    "send_stat ?s' = send_stat dev_frame"
    by blast+
  ultimately show ?thesis
    by (simp add: dev_frame_def dev0_def)
qed

text \<open>
  C4, as stated, on the sample state \<open>dev_rx_error\<close>: the status has the
  receive-complete flag set and the receive status is nonzero, yet the event is not
  dropped. The status has the transmit-complete flag set too, and the handler
  finishes the transmission: the send state goes from busy to idle, the writers are
  woken, and the direction and arm registers are written.
\<close>

theorem handler_rx_error_not_dropped_counterexample:
  "rd_byte dev_rx_error (nread dev_rx_error) AND RMC h0 \<noteq> 0
   \<and> rd_byte dev_rx_error (nread dev_rx_error + 1) \<noteq> 0
   \<and> send_stat dev_rx_error = BUSY
   \<and> fst (projr (hdlc_interrupt_handler h0 111 dev_rx_error)) = IRQ_HANDLED
   \<and> send_stat (snd (projr (hdlc_interrupt_handler h0 111 dev_rx_error))) = IDLE
   \<and> send_wakeups (snd (projr (hdlc_interrupt_handler h0 111 dev_rx_error)))
       = send_wakeups dev_rx_error + 1
   \<and> pin_log (snd (projr (hdlc_interrupt_handler h0 111 dev_rx_error))) =
       rd_cycle (ISR h0) 3 @ rd_cycle (RSR h0) 1
         @ wr_cycle (RXTXEN h0) (RXTXEN_R h0)
         @ rd_cycle (RTER h0) 0 @ wr_cycle (RTER h0) (HREC_EN h0)
   \<and> \<not> isl (hdlc_interrupt_handler h0 111 dev_rx_error)"
proof -
  have irq: "111 = GPIO4_15_irq h0" by (simp add: h0_def)
  have tmc: "(3 :: u8) AND TMC h0 \<noteq> 0" by (simp add: h0_def)
  show ?thesis
    by (simp add: handler_entry [OF irq] sample_reads pads_of_def sample_bytes Let_def
        send_complete_fields [OF tmc] read_cpld_eq)
       (simp add: h0_def dev_rx_error_def dev0_def)
qed

text \<open>
  C4, amended. A completion event whose status has the transmit-complete flag clear
  and either the receive-complete flag clear as well, or the receive-complete flag
  set with a nonzero receive status, is dropped. The handler returns \<^verbatim>\<open>IRQ_NONE\<close>;
  the send state, the receive state, \<open>recv_bytes\<close> and the receive buffer are as
  before; nobody is woken; and the handler's bus cycles are the read of the status
  and, where the receive-complete flag is set, the read of the receive status: no
  register of the CPLD is written.
\<close>

theorem handler_anomaly_dropped:
  fixes s h irq
  defines "isr \<equiv> rd_byte s (nread s)"
  defines "rsr \<equiv> rd_byte s (nread s + 1)"
  defines "s' \<equiv> snd (projr (hdlc_interrupt_handler h irq s))"
  assumes "irq = GPIO4_15_irq h"
    and "(isr AND RMC h \<noteq> 0 \<and> rsr \<noteq> 0 \<and> isr AND TMC h = 0)
         \<or> (isr AND RMC h = 0 \<and> isr AND TMC h = 0)"
  shows "hdlc_interrupt_handler h irq s = Inr (IRQ_NONE, s')
     \<and> fst (projr (hdlc_interrupt_handler h irq s)) = IRQ_NONE
     \<and> send_stat s' = send_stat s \<and> recv_stat s' = recv_stat s
     \<and> recv_bytes s' = recv_bytes s \<and> recv_buf s' = recv_buf s
     \<and> send_wakeups s' = send_wakeups s \<and> recv_wakeups s' = recv_wakeups s
     \<and> irq_log s' = irq_log s
     \<and> pin_log s' =
         pin_log s @ rd_cycle (ISR h) isr
           @ (if isr AND RMC h \<noteq> 0 then rd_cycle (RSR h) rsr else [])"
  using assms(5)
  unfolding s'_def isr_def rsr_def handler_entry [OF assms(4)]
  by (auto simp: Let_def send_complete_none read_cpld_eq)

theorem handler_anomaly_dropped_witness:
  "fst (projr (hdlc_interrupt_handler h0 111
          (dev_rx_error\<lparr>gpio3_dr_in := pads_of [0x010000, 0x010000]\<rparr>))) = IRQ_NONE
   \<and> send_stat (snd (projr (hdlc_interrupt_handler h0 111
          (dev_rx_error\<lparr>gpio3_dr_in := pads_of [0x010000, 0x010000]\<rparr>)))) = BUSY
   \<and> fst (projr (hdlc_interrupt_handler h0 111 dev0)) = IRQ_NONE
   \<and> pin_log (snd (projr (hdlc_interrupt_handler h0 111 dev0))) = rd_cycle (ISR h0) 0
   \<and> \<not> isl (hdlc_interrupt_handler h0 111 dev0)"
proof -
  have irq: "111 = GPIO4_15_irq h0" by (simp add: h0_def)
  let ?d = "dev_rx_error\<lparr>gpio3_dr_in := pads_of [0x010000, 0x010000]\<rparr>"
  have rd: "rd_byte ?d (nread ?d) = 1" "rd_byte ?d (nread ?d + 1) = 1"
    "rd_byte dev0 (nread dev0) = 0"
    by (simp_all add: dev_rx_error_def dev0_def rd_byte_def pads_of_def sample_bytes)
  have a: "(rd_byte ?d (nread ?d) AND RMC h0 \<noteq> 0 \<and> rd_byte ?d (nread ?d + 1) \<noteq> 0
            \<and> rd_byte ?d (nread ?d) AND TMC h0 = 0)
         \<or> (rd_byte ?d (nread ?d) AND RMC h0 = 0 \<and> rd_byte ?d (nread ?d) AND TMC h0 = 0)"
    unfolding rd by (simp add: h0_def)
  have b: "(rd_byte dev0 (nread dev0) AND RMC h0 \<noteq> 0 \<and> rd_byte dev0 (nread dev0 + 1) \<noteq> 0
            \<and> rd_byte dev0 (nread dev0) AND TMC h0 = 0)
         \<or> (rd_byte dev0 (nread dev0) AND RMC h0 = 0 \<and> rd_byte dev0 (nread dev0) AND TMC h0 = 0)"
    unfolding rd by (simp add: h0_def)
  note A = handler_anomaly_dropped [OF irq a]
  note B = handler_anomaly_dropped [OF irq b]
  have 1: "fst (projr (hdlc_interrupt_handler h0 111 ?d)) = IRQ_NONE"
    using A by blast
  have 2: "send_stat (snd (projr (hdlc_interrupt_handler h0 111 ?d))) = send_stat ?d"
    using A by blast
  have 3: "fst (projr (hdlc_interrupt_handler h0 111 dev0)) = IRQ_NONE"
    using B by blast
  have 4: "pin_log (snd (projr (hdlc_interrupt_handler h0 111 dev0))) =
      pin_log dev0 @ rd_cycle (ISR h0) (rd_byte dev0 (nread dev0))
        @ (if rd_byte dev0 (nread dev0) AND RMC h0 \<noteq> 0
           then rd_cycle (RSR h0) (rd_byte dev0 (nread dev0 + 1)) else [])"
    using B by blast
  have "\<exists>x. hdlc_interrupt_handler h0 111 dev0 = Inr x"
    using B by blast
  then have 5: "\<not> isl (hdlc_interrupt_handler h0 111 dev0)"
    by auto
  show ?thesis
    unfolding 1 2 3 4 rd using 5 by (simp add: dev_rx_error_def dev0_def h0_def)
qed


subsection \<open>The received length stays within the receive buffer\<close>

text \<open>
  \<^verbatim>\<open>iobus_read\<close> copies \<open>recv_bytes\<close> elements of \<^verbatim>\<open>recv_buf\<close>. The handler is the
  only writer of \<open>recv_bytes\<close>, and a dispatch that ends in a state leaves a length
  that the buffer holds.
\<close>

lemma send_complete_recv_bytes:
  "recv_bytes (snd (hdlc_send_complete h isr s)) = recv_bytes s"
  by (simp add: hdlc_send_complete_def Let_def split_beta read_cpld_eq write_cpld_eq)

lemma handler_recv_bytes_fit:
  assumes res: "hdlc_interrupt_handler h irq s = Inr (r, s')"
    and fit: "recv_bytes s \<le> RECV_BUF_LEN h"
  shows "recv_bytes s' \<le> RECV_BUF_LEN h"
proof (cases "irq = GPIO4_15_irq h")
  case False
  with res have "s' = s" by (simp add: hdlc_interrupt_handler_def)
  with fit show ?thesis by simp
next
  case True
  define s3 where
    "s3 = snd (read_cpld (ISR h) (s\<lparr>gpio1_dr := 0xfffffeff AND (0x100 OR gpio1_dr s)\<rparr>))"
  define s4 where "s4 = snd (read_cpld (RSR h) s3)"
  define n where
    "n = unat (rd_byte s4 (nread s4)) + 256 * unat (rd_byte s4 (Suc (nread s4)))"
  have keep: "recv_bytes s3 = recv_bytes s" "recv_bytes s4 = recv_bytes s"
    by (simp_all add: s3_def s4_def read_cpld_eq)
  note e = handler_entry [OF True, of s, unfolded Let_def, folded s3_def, folded s4_def]
  show ?thesis
  proof (cases "rd_byte s (nread s) AND RMC h \<noteq> 0 \<and> rd_byte s (Suc (nread s)) = 0")
    case False
    with res e have "s' = snd (hdlc_send_complete h (rd_byte s (nread s)) s4)
                   \<or> s' = snd (hdlc_send_complete h (rd_byte s (nread s)) s3)"
      by (auto split: if_splits)
    with fit keep show ?thesis by (auto simp: send_complete_recv_bytes)
  next
    case rc: True
    with res e have c: "(case hdlc_recv_complete h s4 of
                           Inl f \<Rightarrow> Inl f | Inr s5 \<Rightarrow> Inr (IRQ_HANDLED, s5)) = Inr (r, s')"
      by simp
    show ?thesis
    proof (cases "n \<le> RECV_BUF_LEN h")
      case True
      note f = recv_complete_fields(1,2) [OF True [unfolded n_def]]
      from c have "s' = projr (hdlc_recv_complete h s4)"
        by (subst (asm) f(1)) simp
      with f(2) True show ?thesis by (simp add: n_def)
    next
      case False
      then have "RECV_BUF_LEN h < n" by simp
      from recv_complete_overrun [OF this [unfolded n_def]] c show ?thesis by simp
    qed
  qed
qed

end
